theory Spec2Isabelle
  imports Main
begin

section \<open>Python values and exceptions\<close>

text \<open>
  Exceptions of the source are values. The classes that the source's \<open>except\<close> clauses
  tell apart are constructors of their own; \<open>FileNotFoundError\<close> and \<open>PermissionError\<close>
  are subclasses of \<open>OSError\<close> in Python, which \<open>is_OSError\<close> records. The error codes of
  libvirt are a datatype: the handlers compare them with two named constants only.
  An \<open>assert\<close> of the source raises \<open>AssertionError\<close> (the interpreter's default mode).
\<close>

datatype virerr = VIR_ERR_NO_NODE_DEVICE | VIR_ERR_INTERNAL_ERROR | VIR_ERR_OTHER

datatype qubes_msg =
    InvalidPCIDevice string
  | CantAttachDom0
  | CantAttachPvh
  | DeviceDoesNotExist string

datatype exn =
    ValueError
  | AssertionError
  | KeyError
  | FileNotFoundError
  | PermissionError
  | OSError
  | CalledProcessError
  | LibvirtError virerr
  | QubesException qubes_msg
  | UnsupportedDevice string
  | TypeError
  | OtherError

fun is_OSError :: "exn \<Rightarrow> bool" where
  "is_OSError FileNotFoundError = True"
| "is_OSError PermissionError = True"
| "is_OSError OSError = True"
| "is_OSError _ = False"

fun is_libvirtError :: "exn \<Rightarrow> bool" where
  "is_libvirtError (LibvirtError _) = True"
| "is_libvirtError _ = False"

section \<open>String helpers\<close>

definition hexdigit :: "char \<Rightarrow> bool" where
  "hexdigit c = (c \<in> set ''0123456789abcdef'')"

definition replace_char :: "char \<Rightarrow> char \<Rightarrow> string \<Rightarrow> string" where
  "replace_char a b s = map (\<lambda>c. if c = a then b else c) s"

text \<open>
  The regular expressions \<open>\A[0-9a-f]+[S1][0-9a-f]+[S2][0-9a-f]+\Z\<close> of the source, with
  \<open>sep1\<close> and \<open>sep2\<close> the characters of the two separator classes. No separator is a
  hexadecimal digit, so each group is the longest run of digits.
\<close>

definition hex_triple_regex ::
  "string \<Rightarrow> string \<Rightarrow> string \<Rightarrow> (string \<times> string \<times> string) option" where
  "hex_triple_regex sep1 sep2 s =
     (let b = takeWhile hexdigit s; r1 = dropWhile hexdigit s in
      if b = [] then None else
      case r1 of
        [] \<Rightarrow> None
      | c1 # r2 \<Rightarrow>
          if c1 \<notin> set sep1 then None else
          let d = takeWhile hexdigit r2; r3 = dropWhile hexdigit r2 in
          if d = [] then None else
          case r3 of
            [] \<Rightarrow> None
          | c2 # f \<Rightarrow>
              if c2 \<notin> set sep2 then None
              else if f \<noteq> [] \<and> list_all hexdigit f then Some (b, d, f)
              else None)"

section \<open>The PCI device object\<close>

text \<open>
  \<open>PCIDevice.regex\<close> is \<open>\A(?P<bus>[0-9a-f]+)_(?P<device>[0-9a-f]+)\.(?P<function>[0-9a-f]+)\Z\<close>.
\<close>

definition PCIDevice_regex :: "string \<Rightarrow> (string \<times> string \<times> string) option" where
  "PCIDevice_regex s = hex_triple_regex ''_'' ''.'' s"

datatype pyval = PyNone | PyStr string | PyList "string list"

record PCIDevice =
  ident :: string
  bus :: string
  device :: string
  func :: string
  vendor_cache :: pyval
  vendor_id_cache :: pyval
  product_cache :: pyval
  product_id_cache :: pyval

text \<open>
  The fields \<open>func\<close>, \<open>vendor_cache\<close>, \<open>vendor_id_cache\<close>, \<open>product_cache\<close> and
  \<open>product_id_cache\<close> are the attributes \<open>function\<close>, \<open>_vendor\<close>, \<open>_vendor_id\<close>,
  \<open>_product\<close> and \<open>_product_id\<close> of the class.

  \<open>_cache_get(vm, ident)\<close> is \<open>PCIDevice(vm, ident)\<close> behind an LRU cache: the constructor
  matches the identifier and raises \<open>ValueError\<close> when it does not match. The constructor
  sets the two identifier fields to \<open>None\<close>; \<open>_vendor\<close> and \<open>_product\<close> come from the
  base class \<open>DeviceInfo\<close>, where they start as \<open>None\<close> as well.
\<close>

definition cache_get :: "string \<Rightarrow> exn + PCIDevice" where
  "cache_get i =
     (case PCIDevice_regex i of
        None \<Rightarrow> Inl ValueError
      | Some (b, d, f) \<Rightarrow>
          Inr \<lparr>ident = i, bus = b, device = d, func = f,
               vendor_cache = PyNone, vendor_id_cache = PyNone,
               product_cache = PyNone, product_id_cache = PyNone\<rparr>)"

definition libvirt_name :: "PCIDevice \<Rightarrow> string" where
  "libvirt_name dev = ''pci_0000_'' @ bus dev @ ''_'' @ device dev @ ''_'' @ func dev"

section \<open>The host as the handlers see it\<close>

text \<open>
  A node device as libvirt reports it: the fields of its XML description that the source
  reads, and what its \<open>dettach()\<close> call answers.
\<close>

record nodedev =
  nd_path :: "string option"
  nd_vendor :: "string option"
  nd_product :: "string option"
  nd_vendor_id :: "string list"
  nd_product_id :: "string list"
  nd_dettach :: "exn option"

text \<open>
  Every call that leaves the process answers with a value or with the exception it raises.
  \<open>re_search pattern text\<close> is \<open>re.search(pattern, text, flags=re.MULTILINE)\<close>, giving
  group 1 of the match.
\<close>

record hostenv =
  path_exists :: "string \<Rightarrow> bool"
  nodeDeviceLookupByName :: "string \<Rightarrow> exn + nodedev"
  render_pci_xml :: "string \<Rightarrow> exn + string"
  attachDevice :: "string \<Rightarrow> exn option"
  detachDevice :: "string \<Rightarrow> exn option"
  xl_pci_list :: "int \<Rightarrow> exn + string"
  re_search :: "string \<Rightarrow> string \<Rightarrow> string option"
  run_service :: "string \<Rightarrow> string \<Rightarrow> string \<Rightarrow> exn option"

record vm =
  is_AdminVM :: bool
  virt_mode :: string
  is_running :: bool
  xid :: int

datatype log_msg = FailedAttach string | FailedDetach string | AlreadyDetached string

datatype action =
    NodeDeviceLookup string
  | Dettach string
  | AttachDevice string
  | DetachDevice string
  | XlPciList int
  | RunService string string string
  | LogException log_msg exn
  | LogError log_msg

text \<open>
  A handler's outcome: the calls and log records it made, in order, and the exception it
  raised (\<open>None\<close> when it returned).
\<close>

type_synonym outcome = "action list \<times> exn option"

section \<open>The attachment handlers\<close>

definition bind_pci_to_pciback :: "hostenv \<Rightarrow> PCIDevice \<Rightarrow> outcome" where
  "bind_pci_to_pciback h dev =
     (case nodeDeviceLookupByName h (libvirt_name dev) of
        Inl e \<Rightarrow>
          ([NodeDeviceLookup (libvirt_name dev)],
           Some (if e = LibvirtError VIR_ERR_NO_NODE_DEVICE
                 then QubesException (DeviceDoesNotExist (ident dev)) else e))
      | Inr node \<Rightarrow>
          ([NodeDeviceLookup (libvirt_name dev), Dettach (libvirt_name dev)],
           (case nd_dettach node of
              None \<Rightarrow> None
            | Some e \<Rightarrow> if e = LibvirtError VIR_ERR_INTERNAL_ERROR then None else Some e)))"

text \<open>The body of the \<open>try\<close> block of the pre-attach handler.\<close>

definition attach_try :: "hostenv \<Rightarrow> string \<Rightarrow> outcome" where
  "attach_try h i =
     (case cache_get i of
        Inl e \<Rightarrow> ([], Some e)
      | Inr dev \<Rightarrow>
          (case bind_pci_to_pciback h dev of
             (tr, Some e) \<Rightarrow> (tr, Some e)
           | (tr, None) \<Rightarrow>
               (case render_pci_xml h i of
                  Inl e \<Rightarrow> (tr, Some e)
                | Inr xml \<Rightarrow> (tr @ [AttachDevice xml], attachDevice h xml))))"

definition sysfs_device_node :: "string \<Rightarrow> string" where
  "sysfs_device_node i = ''/sys/bus/pci/devices/0000:'' @ replace_char CHR ''_'' CHR '':'' i"

definition on_device_pre_attached_pci :: "hostenv \<Rightarrow> vm \<Rightarrow> string \<Rightarrow> outcome" where
  "on_device_pre_attached_pci h v i =
     (if \<not> path_exists h (sysfs_device_node i)
      then ([], Some (QubesException (InvalidPCIDevice i)))
      else if is_AdminVM v then ([], Some (QubesException CantAttachDom0))
      else if virt_mode v = ''pvh'' then ([], Some (QubesException CantAttachPvh))
      else if \<not> is_running v then ([], None)
      else
        (case attach_try h i of
           (tr, None) \<Rightarrow> (tr, None)
         | (tr, Some e) \<Rightarrow>
             if e = CalledProcessError
             then (tr @ [LogException (FailedAttach i) e], None)
             else (tr, Some e)))"

definition pci_list_pattern :: "string \<Rightarrow> string" where
  "pci_list_pattern i =
     ''^('' @ [CHR 0x5C] @ ''d+.'' @ [CHR 0x5C] @ ''d+)'' @ [CHR 0x5C] @ ''s+0000:''
       @ replace_char CHR ''_'' CHR '':'' i @ ''$''"

text \<open>The body of the \<open>try\<close> block of the pre-detach handler.\<close>

definition detach_try :: "hostenv \<Rightarrow> string \<Rightarrow> string \<Rightarrow> outcome" where
  "detach_try h i vmdev =
     (let call = RunService ''qubes.DetachPciDevice'' ''root'' (''00:'' @ vmdev) in
      case run_service h ''qubes.DetachPciDevice'' ''root'' (''00:'' @ vmdev) of
        Some e \<Rightarrow> ([call], Some e)
      | None \<Rightarrow>
          (case render_pci_xml h i of
             Inl e \<Rightarrow> ([call], Some e)
           | Inr xml \<Rightarrow> ([call, DetachDevice xml], detachDevice h xml)))"

definition on_device_pre_detached_pci :: "hostenv \<Rightarrow> vm \<Rightarrow> string \<Rightarrow> outcome" where
  "on_device_pre_detached_pci h v i =
     (if \<not> is_running v then ([], None)
      else
        (case cache_get i of
           Inl e \<Rightarrow> ([], Some e)
         | Inr dev \<Rightarrow>
             (case xl_pci_list h (xid v) of
                Inl e \<Rightarrow> ([XlPciList (xid v)], Some e)
              | Inr result \<Rightarrow>
                  (case re_search h (pci_list_pattern i) result of
                     None \<Rightarrow> ([XlPciList (xid v), LogError (AlreadyDetached i)], None)
                   | Some vmdev \<Rightarrow>
                       (case detach_try h i vmdev of
                          (tr, None) \<Rightarrow> (XlPciList (xid v) # tr, None)
                        | (tr, Some e) \<Rightarrow>
                            if e = CalledProcessError \<or> is_libvirtError e
                            then (XlPciList (xid v) # tr @ [LogException (FailedDetach i) e],
                                  Some e)
                            else (XlPciList (xid v) # tr, Some e))))))"

section \<open>Concrete hosts used as examples\<close>

definition a_nodedev :: nodedev where
  "a_nodedev = \<lparr>nd_path = Some ''/sys/devices/pci0000:00/0000:00:03.0'',
                nd_vendor = Some ''Intel Corporation'', nd_product = Some ''Ethernet'',
                nd_vendor_id = [''0x8086''], nd_product_id = [''0x1502''],
                nd_dettach = None\<rparr>"

definition a_host :: hostenv where
  "a_host = \<lparr>path_exists = (\<lambda>p. p = ''/sys/bus/pci/devices/0000:00:03.0''),
             nodeDeviceLookupByName = (\<lambda>n. Inr a_nodedev),
             render_pci_xml = (\<lambda>i. Inr (''<hostdev '' @ i @ ''/>'')),
             attachDevice = (\<lambda>x. None),
             detachDevice = (\<lambda>x. None),
             xl_pci_list = (\<lambda>x. Inr ''''),
             re_search = (\<lambda>p t. None),
             run_service = (\<lambda>s u i. None)\<rparr>"

definition a_vm :: vm where
  "a_vm = \<lparr>is_AdminVM = False, virt_mode = ''hvm'', is_running = True, xid = 5\<rparr>"

definition libvirt_failing_host :: hostenv where
  "libvirt_failing_host = a_host\<lparr>attachDevice := (\<lambda>x. Some (LibvirtError VIR_ERR_OTHER))\<rparr>"

definition pvh_vm :: vm where
  "pvh_vm = \<lparr>is_AdminVM = False, virt_mode = ''pvh'', is_running = False, xid = 6\<rparr>"

definition halted_vm :: vm where
  "halted_vm = \<lparr>is_AdminVM = False, virt_mode = ''hvm'', is_running = False, xid = 7\<rparr>"

section \<open>Python string operations\<close>

text \<open>
  Strings are lists of characters, one \<open>char\<close> per code point (the files read here are
  ASCII). \<open>py_isspace\<close> is \<open>str.isspace\<close> on one character, \<open>py_strip\<close> and
  \<open>py_rstrip\<close> are \<open>str.strip()\<close> and \<open>str.rstrip()\<close>, \<open>startswith\<close> is
  \<open>str.startswith\<close>, and \<open>py_split_max c n s\<close> is \<open>s.split(c, n)\<close> for a separator
  of one character.
\<close>

definition py_isspace :: "char \<Rightarrow> bool" where
  "py_isspace c = (c \<in> set [CHR 0x09, CHR 0x0A, CHR 0x0B, CHR 0x0C, CHR 0x0D,
                               CHR 0x1C, CHR 0x1D, CHR 0x1E, CHR 0x1F, CHR 0x20,
                               CHR 0x85, CHR 0xA0])"

definition py_rstrip :: "string \<Rightarrow> string" where
  "py_rstrip s = rev (dropWhile py_isspace (rev s))"

definition py_strip :: "string \<Rightarrow> string" where
  "py_strip s = py_rstrip (dropWhile py_isspace s)"

definition startswith :: "string \<Rightarrow> string \<Rightarrow> bool" where
  "startswith p s = (take (length p) s = p)"

fun py_split_max :: "char \<Rightarrow> nat \<Rightarrow> string \<Rightarrow> string list" where
  "py_split_max c 0 s = [s]"
| "py_split_max c (Suc n) s =
     (if c \<in> set s
      then takeWhile (\<lambda>x. x \<noteq> c) s # py_split_max c n (tl (dropWhile (\<lambda>x. x \<noteq> c) s))
      else [s])"

section \<open>Files of the host\<close>

text \<open>
  What the operating system answers to the calls of the source: \<open>os.listdir\<close>,
  \<open>os.readlink\<close>, \<open>open(p).read()\<close> and \<open>open(p).readlines()\<close>, each at the path the
  source passes. A call that fails gives the exception it raises.
\<close>

record filesystem =
  listdir :: "string \<Rightarrow> string list"
  readlink :: "string \<Rightarrow> exn + string"
  read_text :: "string \<Rightarrow> exn + string"
  readlines :: "string \<Rightarrow> exn + string list"

section \<open>The class database\<close>

text \<open>A Python \<open>dict\<close> with string keys, in insertion order.\<close>

type_synonym pydict = "(string \<times> string) list"

fun dict_set :: "string \<Rightarrow> string \<Rightarrow> pydict \<Rightarrow> pydict" where
  "dict_set k v [] = [(k, v)]"
| "dict_set k v ((k', v') # d) = (if k' = k then (k, v) # d else (k', v') # dict_set k v d)"

text \<open>Truth value of a variable that holds \<open>None\<close> or a string.\<close>

fun truthy :: "string option \<Rightarrow> bool" where
  "truthy None = False"
| "truthy (Some s) = (s \<noteq> [])"

text \<open>
  One round of the loop of \<open>load_pci_classes\<close>, on the state
  \<open>(class_id, subclass_id, result)\<close>. Unpacking a split of the wrong length raises
  \<open>ValueError\<close>.
\<close>

definition load_pci_classes_line ::
  "string \<Rightarrow> string option \<times> string option \<times> pydict
     \<Rightarrow> exn + (string option \<times> string option \<times> pydict)" where
  "load_pci_classes_line raw st =
     (case st of (class_id, subclass_id, result) \<Rightarrow>
      let line = py_rstrip raw in
      if startswith [CHR 0x09, CHR 0x09] line \<and> truthy class_id \<and> truthy subclass_id then
        (case py_split_max CHR '' '' 2 (drop 2 line) of
           [progif_id, _, class_name] \<Rightarrow>
             Inr (class_id, subclass_id,
                  dict_set (the class_id @ the subclass_id @ progif_id) class_name result)
         | _ \<Rightarrow> Inl ValueError)
      else if startswith [CHR 0x09] line \<and> truthy class_id then
        (case py_split_max CHR '' '' 2 (drop 1 line) of
           [sub, _, class_name] \<Rightarrow>
             Inr (class_id, Some sub,
                  dict_set (the class_id @ sub) class_name
                    (dict_set (the class_id @ sub @ ''00'') class_name result))
         | _ \<Rightarrow> Inl ValueError)
      else if startswith ''C '' line then
        (case py_split_max CHR '' '' 3 line of
           [_, cls, _, class_name] \<Rightarrow>
             Inr (Some cls, None,
                  dict_set (cls @ ''00'') class_name
                    (dict_set (cls @ ''0000'') class_name result))
         | _ \<Rightarrow> Inl ValueError)
      else Inr st)"

fun load_pci_classes_loop ::
  "string list \<Rightarrow> string option \<times> string option \<times> pydict \<Rightarrow> exn + pydict" where
  "load_pci_classes_loop [] st = Inr (snd (snd st))"
| "load_pci_classes_loop (l # ls) st =
     (case load_pci_classes_line l st of
        Inl e \<Rightarrow> Inl e
      | Inr st' \<Rightarrow> load_pci_classes_loop ls st')"

definition pci_ids_file :: string where
  "pci_ids_file = ''/usr/share/hwdata/pci.ids''"

definition load_pci_classes :: "filesystem \<Rightarrow> exn + pydict" where
  "load_pci_classes fs =
     (case readlines fs pci_ids_file of
        Inl e \<Rightarrow> Inl e
      | Inr ls \<Rightarrow> load_pci_classes_loop ls (None, None, []))"

text \<open>
  \<open>pcidev_class\<close> reads the module's cache \<open>pci_classes\<close> (\<open>None\<close> at start) and may fill
  it: the model takes the cache and returns it with the result. The argument is what
  \<open>dev_xmldesc.findtext('path')\<close> gives.
\<close>

definition pcidev_class ::
  "filesystem \<Rightarrow> pydict option \<Rightarrow> string option \<Rightarrow> (exn + string) \<times> pydict option" where
  "pcidev_class fs pci_classes sysfs_path =
     (if \<not> truthy sysfs_path then (Inl AssertionError, pci_classes) else
      case read_text fs (the sysfs_path @ ''/class'') of
        Inl e \<Rightarrow> (if is_OSError e then (Inr ''unknown'', pci_classes) else (Inl e, pci_classes))
      | Inr content \<Rightarrow>
          let class_id = py_strip content;
              loaded = (if pci_classes = None \<or> pci_classes = Some []
                        then load_pci_classes fs else Inr (the pci_classes))
          in case loaded of
               Inl e \<Rightarrow> (Inl e, pci_classes)
             | Inr classes \<Rightarrow>
                 let class_id = (if startswith ''0x'' class_id then drop 2 class_id else class_id)
                 in (case map_of classes (take 4 class_id) of
                       Some n \<Rightarrow> (Inr n, Some classes)
                     | None \<Rightarrow> (Inr ''unknown'', Some classes)))"

definition pcidev_interface :: "filesystem \<Rightarrow> string option \<Rightarrow> exn + string" where
  "pcidev_interface fs sysfs_path =
     (if \<not> truthy sysfs_path then Inl AssertionError else
      case read_text fs (the sysfs_path @ ''/class'') of
        Inl e \<Rightarrow> (if is_OSError e then Inr ''000000'' else Inl e)
      | Inr content \<Rightarrow>
          let class_id = py_strip content
          in Inr (if startswith ''0x'' class_id then drop 2 class_id else class_id))"

section \<open>Lazy metadata of a device\<close>

text \<open>The dictionary that \<open>_load_desc\<close> returns has a fixed set of keys.\<close>

record desc =
  d_vendor :: pyval
  d_vendor_ID :: pyval
  d_product :: pyval
  d_product_ID :: pyval
  d_manufacturer :: pyval
  d_name :: pyval
  d_serial :: pyval

definition unknown_desc :: desc where
  "unknown_desc = \<lparr>d_vendor = PyStr ''unknown'', d_vendor_ID = PyStr ''0000'',
                    d_product = PyStr ''unknown'', d_product_ID = PyStr ''0000'',
                    d_manufacturer = PyStr ''unknown'', d_name = PyStr ''unknown'',
                    d_serial = PyStr ''unknown''\<rparr>"

fun findtext :: "string option \<Rightarrow> pyval" where
  "findtext None = PyNone"
| "findtext (Some s) = PyStr s"

text \<open>
  \<open>_load_desc\<close>: the second argument is \<open>self.backend_domain.is_running()\<close>. The device
  is returned with the result, since a successful read assigns its four cache fields.
\<close>

definition load_desc :: "hostenv \<Rightarrow> bool \<Rightarrow> PCIDevice \<Rightarrow> exn + (desc \<times> PCIDevice)" where
  "load_desc h running dev =
     (if \<not> running then Inr (unknown_desc, dev) else
      case nodeDeviceLookupByName h (libvirt_name dev) of
        Inl e \<Rightarrow> Inl e
      | Inr node \<Rightarrow>
          Inr (unknown_desc\<lparr>d_vendor := findtext (nd_vendor node),
                            d_vendor_ID := PyList (nd_vendor_id node),
                            d_product := findtext (nd_product node),
                            d_product_ID := PyList (nd_product_id node)\<rparr>,
               dev\<lparr>vendor_cache := findtext (nd_vendor node),
                   vendor_id_cache := PyList (nd_vendor_id node),
                   product_cache := findtext (nd_product node),
                   product_id_cache := PyList (nd_product_id node)\<rparr>))"

definition vendor :: "hostenv \<Rightarrow> bool \<Rightarrow> PCIDevice \<Rightarrow> exn + (pyval \<times> PCIDevice)" where
  "vendor h running dev =
     (if vendor_cache dev = PyNone then
        (case load_desc h running dev of
           Inl e \<Rightarrow> Inl e
         | Inr (r, dev') \<Rightarrow> Inr (d_vendor r, dev'))
      else Inr (vendor_cache dev, dev))"

definition product :: "hostenv \<Rightarrow> bool \<Rightarrow> PCIDevice \<Rightarrow> exn + (pyval \<times> PCIDevice)" where
  "product h running dev =
     (if product_cache dev = PyNone then
        (case load_desc h running dev of
           Inl e \<Rightarrow> Inl e
         | Inr (r, dev') \<Rightarrow> Inr (d_product r, dev'))
      else Inr (product_cache dev, dev))"

text \<open>
  The first two statements of \<open>self_identity\<close>, which fill the two identifier fields
  when they hold \<open>None\<close>: each element of what \<open>_load_desc\<close> gave (a character of a
  string, a string of a list) is kept when it is one of \<open>allowed_chars\<close> and replaced by
  \<open>_\<close> otherwise. The rest of the property builds its result from the interfaces and the
  serial number of the base class.
\<close>

definition allowed_chars :: string where
  "allowed_chars = ''0123456789abcdefghijklmnopqrstuvwxyzABCDEFGHIJKLMNOPQRSTUVWXYZ-_.''"

fun sanitize_id :: "pyval \<Rightarrow> exn + string" where
  "sanitize_id (PyStr s) = Inr (map (\<lambda>c. if c \<in> set allowed_chars then c else CHR ''_'') s)"
| "sanitize_id (PyList xs) =
     Inr (concat (map (\<lambda>x. case x of [c] \<Rightarrow> if c \<in> set allowed_chars then x else ''_''
                                 | _ \<Rightarrow> ''_'') xs))"
| "sanitize_id PyNone = Inl TypeError"

definition self_identity_ids :: "hostenv \<Rightarrow> bool \<Rightarrow> PCIDevice \<Rightarrow> exn + PCIDevice" where
  "self_identity_ids h running dev =
     (case (if vendor_id_cache dev = PyNone then
              (case load_desc h running dev of
                 Inl e \<Rightarrow> Inl e
               | Inr (r, dev1) \<Rightarrow>
                   (case sanitize_id (d_vendor_ID r) of
                      Inl e \<Rightarrow> Inl e
                    | Inr v \<Rightarrow> Inr (dev1\<lparr>vendor_id_cache := PyStr v\<rparr>)))
            else Inr dev) of
        Inl e \<Rightarrow> Inl e
      | Inr dev2 \<Rightarrow>
          if product_id_cache dev2 = PyNone then
            (case load_desc h running dev2 of
               Inl e \<Rightarrow> Inl e
             | Inr (r, dev3) \<Rightarrow>
                 (case sanitize_id (d_product_ID r) of
                    Inl e \<Rightarrow> Inl e
                  | Inr v \<Rightarrow> Inr (dev3\<lparr>product_id_cache := PyStr v\<rparr>)))
          else Inr dev2)"

text \<open>The four fields that cache metadata.\<close>

definition cache_fields :: "PCIDevice \<Rightarrow> pyval \<times> pyval \<times> pyval \<times> pyval" where
  "cache_fields dev = (vendor_cache dev, vendor_id_cache dev, product_cache dev, product_id_cache dev)"

definition a_device :: PCIDevice where
  "a_device = \<lparr>ident = ''00_03.0'', bus = ''00'', device = ''03'', func = ''0'',
               vendor_cache = PyNone, vendor_id_cache = PyNone,
               product_cache = PyNone, product_id_cache = PyNone\<rparr>"

text \<open>A host without the class table: the device's class attribute reads, \<open>pci.ids\<close> does not exist.\<close>

definition fs_without_pci_ids :: filesystem where
  "fs_without_pci_ids =
     \<lparr>listdir = (\<lambda>p. []),
      readlink = (\<lambda>p. Inl FileNotFoundError),
      read_text = (\<lambda>p. if p = ''/sys/devices/pci0000:00/0000:00:03.0/class''
                        then Inr (''0x020000'' @ [CHR 0x0A]) else Inl FileNotFoundError),
      readlines = (\<lambda>p. Inl FileNotFoundError)\<rparr>"

section \<open>More Python string and path operations\<close>

text \<open>\<open>s.split(c)\<close> for a separator of one character: never the empty list.\<close>

fun py_split :: "char \<Rightarrow> string \<Rightarrow> string list" where
  "py_split c [] = [[]]"
| "py_split c (x # xs) =
     (if x = c then [] # py_split c xs
      else (case py_split c xs of [] \<Rightarrow> [[x]] | h # t \<Rightarrow> (x # h) # t))"

text \<open>\<open>sep.join(parts)\<close>.\<close>

fun py_join :: "string \<Rightarrow> string list \<Rightarrow> string" where
  "py_join sep [] = []"
| "py_join sep [p] = p"
| "py_join sep (p # q # ps) = p @ sep @ py_join sep (q # ps)"

text \<open>
  \<open>s.partition(sep)\<close> for a separator that is not empty: the text before the first
  occurrence, the separator, the text after it; without an occurrence the string and two
  empty strings.
\<close>

fun find_sep :: "string \<Rightarrow> string \<Rightarrow> (string \<times> string) option" where
  "find_sep sep [] = None"
| "find_sep sep (x # xs) =
     (if startswith sep (x # xs) then Some ([], drop (length sep) (x # xs))
      else map_option (\<lambda>(a, b). (x # a, b)) (find_sep sep xs))"

definition py_partition :: "string \<Rightarrow> string \<Rightarrow> string \<times> string \<times> string" where
  "py_partition sep s =
     (case find_sep sep s of Some (a, b) \<Rightarrow> (a, sep, b) | None \<Rightarrow> (s, [], []))"

text \<open>\<open>os.path.join(a, b)\<close> and \<open>os.path.normpath\<close> of \<open>posixpath\<close>.\<close>

definition path_join :: "string \<Rightarrow> string \<Rightarrow> string" where
  "path_join a b =
     (if startswith ''/'' b then b
      else if a = [] \<or> last a = CHR ''/'' then a @ b
      else a @ ''/'' @ b)"

fun normpath_comps :: "bool \<Rightarrow> string list \<Rightarrow> string list \<Rightarrow> string list" where
  "normpath_comps rooted new_comps [] = new_comps"
| "normpath_comps rooted new_comps (part # comps) =
     (if part = [] \<or> part = ''.'' then normpath_comps rooted new_comps comps
      else if part \<noteq> ''..'' \<or> (\<not> rooted \<and> new_comps = [])
              \<or> (new_comps \<noteq> [] \<and> last new_comps = ''..'')
      then normpath_comps rooted (new_comps @ [part]) comps
      else if new_comps \<noteq> [] then normpath_comps rooted (butlast new_comps) comps
      else normpath_comps rooted new_comps comps)"

definition normpath :: "string \<Rightarrow> string" where
  "normpath p =
     (if p = [] then ''.'' else
      let initial_slashes =
            (if startswith ''/'' p
             then (if startswith ''//'' p \<and> \<not> startswith ''///'' p then 2 else 1)
             else (0::nat));
          comps = normpath_comps (initial_slashes \<noteq> 0) [] (py_split CHR ''/'' p);
          q = replicate initial_slashes CHR ''/'' @ py_join ''/'' comps
      in if q = [] then ''.'' else q)"

section \<open>Numbers in text\<close>

text \<open>\<open>int(s, 16)\<close> on a string of lower-case hexadecimal digits.\<close>

definition digit_val :: "char \<Rightarrow> nat" where
  "digit_val c = length (takeWhile (\<lambda>d. d \<noteq> c) ''0123456789abcdef'')"

definition hexval :: "string \<Rightarrow> nat" where
  "hexval s = foldl (\<lambda>a c. 16 * a + digit_val c) 0 s"

text \<open>
  \<open>format(n, '02x')\<close>: lower-case hexadecimal, padded with zeros to two characters (a
  negative number has its sign and needs no padding).
\<close>

fun hex_of_nat :: "nat \<Rightarrow> string" where
  "hex_of_nat n =
     (if n < 16 then [''0123456789abcdef'' ! n]
      else hex_of_nat (n div 16) @ [''0123456789abcdef'' ! (n mod 16)])"

definition format_02x :: "int \<Rightarrow> string" where
  "format_02x n =
     (if n < 0 then CHR ''-'' # hex_of_nat (nat (- n))
      else if n < 16 then CHR ''0'' # hex_of_nat (nat n)
      else hex_of_nat (nat n))"

text \<open>
  \<open>int(s)\<close> in base ten on an ASCII string (the file is opened with
  \<open>encoding="ascii"\<close>): the blanks that the parser skips around the number are tab, line
  feed, vertical tab, form feed, carriage return and space (not the separators
  \<open>0x1C\<close> to \<open>0x1F\<close> that \<open>str.strip\<close> drops); a sign may lead, single underscores may
  separate digits. \<open>None\<close> stands for the \<open>ValueError\<close>.
\<close>

definition int_isspace :: "char \<Rightarrow> bool" where
  "int_isspace c = (c \<in> set [CHR 0x09, CHR 0x0A, CHR 0x0B, CHR 0x0C, CHR 0x0D, CHR 0x20])"

definition int_strip :: "string \<Rightarrow> string" where
  "int_strip s = rev (dropWhile int_isspace (rev (dropWhile int_isspace s)))"

definition decdigit :: "char \<Rightarrow> bool" where
  "decdigit c = (c \<in> set ''0123456789'')"

fun digits_us :: "string \<Rightarrow> bool" where
  "digits_us [] = False"
| "digits_us [c] = decdigit c"
| "digits_us (c # d # r) =
     (decdigit c \<and> (if d = CHR ''_'' then digits_us r else digits_us (d # r)))"

definition decval :: "string \<Rightarrow> nat" where
  "decval s = foldl (\<lambda>a c. 10 * a + digit_val c) 0 s"

definition py_int :: "string \<Rightarrow> int option" where
  "py_int s =
     (let t = int_strip s;
          neg = (t \<noteq> [] \<and> hd t = CHR ''-'');
          body = (if t \<noteq> [] \<and> (hd t = CHR ''-'' \<or> hd t = CHR ''+'') then tl t else t)
      in if digits_us body
         then Some ((if neg then -1 else 1) * int (decval (filter (\<lambda>c. c \<noteq> CHR ''_'') body)))
         else None)"

section \<open>The topology codec\<close>

definition SYSFS_BASE :: string where
  "SYSFS_BASE = ''/sys''"

definition sysfs_pci_devs_base :: string where
  "sysfs_pci_devs_base = SYSFS_BASE @ ''/bus/pci/devices''"

text \<open>
  The regular expression of \<open>sbdf_to_path\<close>,
  \<open>\A(?:pci_)?((?P<segment>[0-9a-f]{4})[_:])?(?P<bus>[0-9a-f]{2})[_:](?P<device>[0-9a-f]{2})[._](?P<function>[0-9a-f])\Z\<close>.
  Behind the optional \<open>pci_\<close> the text has twelve characters with a segment and seven
  without. The result is \<open>(segment, bus, device, function)\<close>.
\<close>

fun bdf_groups :: "string \<Rightarrow> (string \<times> string \<times> string) option" where
  "bdf_groups [b1, b2, x, d1, d2, y, f] =
     (if hexdigit b1 \<and> hexdigit b2 \<and> x \<in> set ''_:'' \<and> hexdigit d1 \<and> hexdigit d2
         \<and> y \<in> set ''._'' \<and> hexdigit f
      then Some ([b1, b2], [d1, d2], [f]) else None)"
| "bdf_groups _ = None"

definition sbdf_regex :: "string \<Rightarrow> (string option \<times> string \<times> string \<times> string) option" where
  "sbdf_regex s =
     (let t = (if startswith ''pci_'' s then drop 4 s else s) in
      if length t = 12 then
        (if list_all hexdigit (take 4 t) \<and> t ! 4 \<in> set ''_:''
         then map_option (\<lambda>(b, d, f). (Some (take 4 t), b, d, f)) (bdf_groups (drop 5 t))
         else None)
      else map_option (\<lambda>(b, d, f). (None, b, d, f)) (bdf_groups t))"

text \<open>
  The regular expressions of \<open>path_to_sbdf\<close>:
  \<open>\A(?P<bus>[0-9a-f]+)[_:](?P<device>[0-9a-f]+)[._](?P<function>[0-9a-f]+)\Z\<close> and
  \<open>\A(?P<segment>[0-9a-f]{4})[_:](?P<rest>.*)\Z\<close>, where \<open>.\<close> matches any character
  but the newline.
\<close>

definition path_regex :: "string \<Rightarrow> (string \<times> string \<times> string) option" where
  "path_regex s = hex_triple_regex ''_:'' ''._'' s"

definition segment_re :: "string \<Rightarrow> (string \<times> string) option" where
  "segment_re s =
     (if 5 \<le> length s \<and> list_all hexdigit (take 4 s) \<and> s ! 4 \<in> set ''_:''
         \<and> CHR 0x0A \<notin> set (drop 5 s)
      then Some (take 4 s, drop 5 s) else None)"

definition root_buses :: "filesystem \<Rightarrow> string list" where
  "root_buses fs = map (drop 3) (filter (startswith ''pci'') (listdir fs (SYSFS_BASE @ ''/devices'')))"

text \<open>
  Reading \<open>secondary_bus_number\<close> of a device: the number, \<open>-1\<close> when the file does not
  exist, or the exception that leaves the function (\<open>ValueError\<close> when the text is no
  number).
\<close>

definition read_secondary :: "filesystem \<Rightarrow> string \<Rightarrow> exn + int" where
  "read_secondary fs file =
     (case read_text fs file of
        Inl e \<Rightarrow> (if e = FileNotFoundError then Inr (-1) else Inl e)
      | Inr content \<Rightarrow> (case py_int content of None \<Rightarrow> Inl ValueError | Some v \<Rightarrow> Inr v))"

text \<open>The loop of \<open>sbdf_to_path\<close> over the parts of the sysfs path.\<close>

fun sbdf_loop :: "filesystem \<Rightarrow> string list \<Rightarrow> int \<Rightarrow> string list \<Rightarrow> exn + string list" where
  "sbdf_loop fs [] bus_offset result_list = Inr result_list"
| "sbdf_loop fs (path_part # rest) bus_offset result_list =
     (if bus_offset = -1 then Inl AssertionError else
      case sbdf_regex path_part of
        None \<Rightarrow> Inl ValueError
      | Some (_, b, d, f) \<Rightarrow>
          if \<not> int (hexval b) \<ge> bus_offset then Inl AssertionError else
          let bus_num = int (hexval b) - bus_offset;
              bridge_str = format_02x bus_num @ ''_'' @ d @ ''.'' @ f
          in case read_secondary fs
                    (sysfs_pci_devs_base @ ''/'' @ path_part @ ''/secondary_bus_number'') of
               Inl e \<Rightarrow> Inl e
             | Inr v \<Rightarrow> sbdf_loop fs rest v (result_list @ [bridge_str]))"

definition sbdf_to_path :: "filesystem \<Rightarrow> string \<Rightarrow> exn + string option" where
  "sbdf_to_path fs device_id =
     (case sbdf_regex device_id of
        None \<Rightarrow> Inl ValueError
      | Some (seg, b, d, f) \<Rightarrow>
          let segment = (case seg of Some s \<Rightarrow> s | None \<Rightarrow> ''0000'') in
          if segment @ '':'' @ b \<in> set (root_buses fs)
          then Inr (Some ((if segment \<noteq> ''0000'' then segment @ ''_'' else '''')
                          @ b @ ''_'' @ d @ ''.'' @ f))
          else
            let sbdf = segment @ '':'' @ b @ '':'' @ d @ ''.'' @ f in
            case readlink fs (sysfs_pci_devs_base @ ''/'' @ sbdf) of
              Inl e \<Rightarrow> (if e = FileNotFoundError then Inr None else Inl e)
            | Inr sysfs_path \<Rightarrow>
                (case py_partition (''/pci'' @ segment @ '':'') sysfs_path of
                   (rel_links, _, path) \<Rightarrow>
                     if normpath (path_join sysfs_pci_devs_base rel_links)
                          \<noteq> normpath (SYSFS_BASE @ ''/devices'')
                     then Inl AssertionError
                     else
                       (case sbdf_loop fs (py_split CHR ''/'' (drop 3 path)) 0 [] of
                          Inl e \<Rightarrow> Inl e
                        | Inr result_list \<Rightarrow>
                            if segment = ''0000'' then Inr (Some (py_join ''-'' result_list))
                            else Inr (Some (segment @ ''_'' @ py_join ''-'' result_list)))))"

text \<open>
  \<open>path_to_sbdf\<close>. The state of its loop is \<open>(segment, bus_offset, current_dev)\<close>.
  \<open>hop_address\<close> is the part of the loop's body that works on text alone: it gives the
  segment in force and the live address of the hop, or \<open>None\<close> for the \<open>ValueError\<close> of
  a hop that does not parse. \<open>path_step\<close> is the whole body.
\<close>

definition hop_address :: "string \<Rightarrow> int \<Rightarrow> string \<Rightarrow> (string \<times> string) option" where
  "hop_address segment bus_offset path_part =
     (let sm = (if bus_offset = 0 then segment_re path_part else None);
          segment' = (case sm of Some (s, r) \<Rightarrow> s | None \<Rightarrow> segment);
          path_part' = (case sm of Some (s, r) \<Rightarrow> r | None \<Rightarrow> path_part)
      in case path_regex path_part' of
           None \<Rightarrow> None
         | Some (b, d, f) \<Rightarrow>
             let bus_num = int (hexval b) + bus_offset
             in Some (segment', segment' @ '':'' @ format_02x bus_num @ '':'' @ d @ ''.'' @ f))"

definition secondary_bus_number_file :: "string \<Rightarrow> string" where
  "secondary_bus_number_file dev = SYSFS_BASE @ ''/bus/pci/devices/'' @ dev @ ''/secondary_bus_number''"

definition path_step ::
  "filesystem \<Rightarrow> string \<Rightarrow> string \<times> int \<times> string \<Rightarrow> exn + (string \<times> int \<times> string)" where
  "path_step fs path_part st =
     (case st of (segment, bus_offset, current_dev) \<Rightarrow>
      if bus_offset = -1 then Inl AssertionError else
      case hop_address segment bus_offset path_part of
        None \<Rightarrow> Inl ValueError
      | Some (segment', dev) \<Rightarrow>
          (case read_secondary fs (secondary_bus_number_file dev) of
             Inl e \<Rightarrow> Inl e
           | Inr v \<Rightarrow> Inr (segment', v, dev)))"

fun path_loop ::
  "filesystem \<Rightarrow> string list \<Rightarrow> string \<times> int \<times> string \<Rightarrow> exn + (string \<times> int \<times> string)" where
  "path_loop fs [] st = Inr st"
| "path_loop fs (path_part # rest) st =
     (case path_step fs path_part st of
        Inl e \<Rightarrow> Inl e
      | Inr st' \<Rightarrow> path_loop fs rest st')"

definition path_to_sbdf :: "filesystem \<Rightarrow> string \<Rightarrow> exn + string" where
  "path_to_sbdf fs path =
     (case path_loop fs (py_split CHR ''-'' path) (''0000'', 0, []) of
        Inl e \<Rightarrow> Inl e
      | Inr (segment, bus_offset, current_dev) \<Rightarrow> Inr current_dev)"

text \<open>
  \<open>is_pci_path\<close>. The names of the root buses become the alternatives of a regular
  expression; the model compares them as plain text, which is what the expression does
  for names made of letters, digits and \<open>_\<close> (\<open>plain_name\<close>). An empty list of root buses
  gives the empty alternative.
\<close>

definition plain_name :: "string \<Rightarrow> bool" where
  "plain_name s = list_all (\<lambda>c. c \<in> set ''0123456789abcdefghijklmnopqrstuvwxyz_'') s"

fun more_hops :: "string \<Rightarrow> bool" where
  "more_hops [] = True"
| "more_hops (m # b1 # b2 # u # d1 # d2 # p # f # rest) =
     (m = CHR ''-'' \<and> hexdigit b1 \<and> hexdigit b2 \<and> u = CHR ''_'' \<and> hexdigit d1 \<and> hexdigit d2
      \<and> p = CHR ''.'' \<and> hexdigit f \<and> more_hops rest)"
| "more_hops _ = False"

fun path_tail :: "string \<Rightarrow> bool" where
  "path_tail (u # d1 # d2 # p # f # rest) =
     (u = CHR ''_'' \<and> hexdigit d1 \<and> hexdigit d2 \<and> p = CHR ''.'' \<and> hexdigit f \<and> more_hops rest)"
| "path_tail _ = False"

definition root_buses_us :: "filesystem \<Rightarrow> string list" where
  "root_buses_us fs =
     map (\<lambda>dev. replace_char CHR '':'' CHR ''_'' (drop 3 dev))
         (filter (startswith ''pci'') (listdir fs (SYSFS_BASE @ ''/devices'')))"

definition is_pci_path :: "filesystem \<Rightarrow> string \<Rightarrow> bool" where
  "is_pci_path fs device_id =
     (let rbs = root_buses_us fs;
          alternatives = (if rbs = [] then [[]] else rbs);
          i = (if length device_id > 2 \<and> device_id ! 2 = CHR ''_''
               then ''0000_'' @ device_id else device_id)
      in list_ex (\<lambda>rb. startswith rb i \<and> path_tail (drop (length rb) i)) alternatives)"

text \<open>
  The migration step of \<open>load_extras\<close>: the port id that the assignment is loaded with,
  from the device class and the \<open>id\<close> attribute of the device node.
\<close>

definition migrate_port_id :: "filesystem \<Rightarrow> string \<Rightarrow> string \<Rightarrow> exn + string" where
  "migrate_port_id fs devclass port_id =
     (if devclass = ''pci'' \<and> port_id \<noteq> ''*'' \<and> \<not> is_pci_path fs port_id
      then (case sbdf_to_path fs port_id of
              Inl e \<Rightarrow> Inl e
            | Inr None \<Rightarrow> Inr port_id
            | Inr (Some p) \<Rightarrow> Inr (if p = [] then port_id else p))
      else Inr port_id)"

section \<open>Device trees used as examples\<close>

text \<open>
  Root bus \<open>00\<close>; bridge \<open>00:03.0\<close> with secondary bus 2, below it bridge \<open>02:01.0\<close> with
  secondary bus 3, below it the device \<open>03:00.0\<close>; the device \<open>00:1f.2\<close> on the root bus.
\<close>

definition tree_links :: "(string \<times> string) list" where
  "tree_links =
     [(''/sys/bus/pci/devices/0000:00:03.0'', ''../../../devices/pci0000:00/0000:00:03.0''),
      (''/sys/bus/pci/devices/0000:00:1f.2'', ''../../../devices/pci0000:00/0000:00:1f.2''),
      (''/sys/bus/pci/devices/0000:02:01.0'',
         ''../../../devices/pci0000:00/0000:00:03.0/0000:02:01.0''),
      (''/sys/bus/pci/devices/0000:03:00.0'',
         ''../../../devices/pci0000:00/0000:00:03.0/0000:02:01.0/0000:03:00.0'')]"

definition tree_files :: "(string \<times> string) list" where
  "tree_files =
     [(''/sys/bus/pci/devices/0000:00:03.0/secondary_bus_number'', ''2'' @ [CHR 0x0A]),
      (''/sys/bus/pci/devices/0000:02:01.0/secondary_bus_number'', ''3'' @ [CHR 0x0A])]"

definition fs_of :: "string list \<Rightarrow> (string \<times> string) list \<Rightarrow> (string \<times> string) list \<Rightarrow> filesystem" where
  "fs_of dirs links files =
     \<lparr>listdir = (\<lambda>p. if p = ''/sys/devices'' then dirs else []),
      readlink = (\<lambda>p. case map_of links p of Some t \<Rightarrow> Inr t | None \<Rightarrow> Inl FileNotFoundError),
      read_text = (\<lambda>p. case map_of files p of Some t \<Rightarrow> Inr t | None \<Rightarrow> Inl FileNotFoundError),
      readlines = (\<lambda>p. Inl FileNotFoundError)\<rparr>"

definition tree_fs :: filesystem where
  "tree_fs = fs_of [''system'', ''pci0000:00'', ''virtual''] tree_links tree_files"

section \<open>Identifiers and paths as text\<close>

text \<open>
  The shapes of the identifiers that the properties below speak of: fields of one, two and
  four hexadecimal digits, a hop \<open>bb_dd.f\<close>, and the optional segment in front of a path.
\<close>

fun hex1 :: "string \<Rightarrow> bool" where
  "hex1 [a] = hexdigit a"
| "hex1 _ = False"

fun hex2 :: "string \<Rightarrow> bool" where
  "hex2 [a, b] = (hexdigit a \<and> hexdigit b)"
| "hex2 _ = False"

fun hex4 :: "string \<Rightarrow> bool" where
  "hex4 [a, b, c, d] = (hexdigit a \<and> hexdigit b \<and> hexdigit c \<and> hexdigit d)"
| "hex4 _ = False"

definition hop_text :: "string \<times> string \<times> string \<Rightarrow> string" where
  "hop_text h = (case h of (b, d, f) \<Rightarrow> b @ ''_'' @ d @ ''.'' @ f)"

definition hop_ok :: "string \<times> string \<times> string \<Rightarrow> bool" where
  "hop_ok h = (case h of (b, d, f) \<Rightarrow> hex2 b \<and> hex2 d \<and> hex1 f)"

definition segment_prefix :: "string option \<Rightarrow> string" where
  "segment_prefix seg = (case seg of None \<Rightarrow> [] | Some s \<Rightarrow> s @ ''_'')"

definition segment_or_default :: "string option \<Rightarrow> string" where
  "segment_or_default seg = (case seg of None \<Rightarrow> ''0000'' | Some s \<Rightarrow> s)"

definition segment_ok :: "string option \<Rightarrow> bool" where
  "segment_ok seg = (case seg of None \<Rightarrow> True | Some s \<Rightarrow> hex4 s)"

text \<open>The digit of a value below sixteen.\<close>

definition hexchar :: "nat \<Rightarrow> char" where
  "hexchar k = ''0123456789abcdef'' ! k"

section \<open>A device behind a chain of bridges\<close>

text \<open>
  The devices on the way from a root bus to a device. A hop is
  \<open>(bus number, device digits, function digit)\<close>; in a chain each hop comes with the number
  that its \<open>secondary_bus_number\<close> reads as (\<open>-1\<close> for a device without the attribute,
  as the codec has it). What the host shows of a chain: the name of each device under
  \<open>/sys/bus/pci/devices\<close> (\<open>live_address\<close>), the target of the last device's symbolic
  link (\<open>sysfs_link\<close>, for the root bus directory \<open>pciSSSS:rb\<close>), and the attribute of
  each device (\<open>chain_numbered\<close>): a bridge in the chain has a secondary bus number, and
  the next hop sits on that bus or on a bus above it.
\<close>

type_synonym hop = "nat \<times> string \<times> string"

definition live_address :: "string \<Rightarrow> hop \<Rightarrow> string" where
  "live_address segment h =
     (case h of (n, d, f) \<Rightarrow> segment @ '':'' @ format_02x (int n) @ '':'' @ d @ ''.'' @ f)"

definition slot_ok :: "hop \<Rightarrow> bool" where
  "slot_ok h = (case h of (n, d, f) \<Rightarrow> n < 256 \<and> hex2 d \<and> hex1 f)"

definition secondary_of :: "filesystem \<Rightarrow> string \<Rightarrow> hop \<Rightarrow> exn + int" where
  "secondary_of fs segment h = read_secondary fs (secondary_bus_number_file (live_address segment h))"

fun chain_numbered :: "filesystem \<Rightarrow> string \<Rightarrow> (hop \<times> int) list \<Rightarrow> bool" where
  "chain_numbered fs segment [] = False"
| "chain_numbered fs segment [hv] = (slot_ok (fst hv) \<and> secondary_of fs segment (fst hv) = Inr (snd hv))"
| "chain_numbered fs segment (hv # hv' # r) =
     (slot_ok (fst hv) \<and> secondary_of fs segment (fst hv) = Inr (snd hv)
      \<and> snd hv \<noteq> -1 \<and> snd hv \<le> int (fst (fst hv'))
      \<and> chain_numbered fs segment (hv' # r))"

definition target :: "(hop \<times> int) list \<Rightarrow> hop" where
  "target chain = fst (last chain)"

definition sysfs_link :: "string \<Rightarrow> string \<Rightarrow> (hop \<times> int) list \<Rightarrow> string" where
  "sysfs_link segment rb chain =
     ''../../../devices/pci'' @ segment @ '':'' @ rb @ ''/''
       @ py_join ''/'' (map (\<lambda>hv. live_address segment (fst hv)) chain)"

definition on_root_bus :: "filesystem \<Rightarrow> string \<Rightarrow> hop \<Rightarrow> bool" where
  "on_root_bus fs segment h = (segment @ '':'' @ format_02x (int (fst h)) \<in> set (root_buses fs))"

definition linked :: "filesystem \<Rightarrow> string \<Rightarrow> string \<Rightarrow> (hop \<times> int) list \<Rightarrow> bool" where
  "linked fs segment rb chain =
     (length rb = 2 \<and>
      readlink fs (sysfs_pci_devs_base @ ''/'' @ live_address segment (target chain))
        = Inr (sysfs_link segment rb chain))"

text \<open>
  A device is reachable when the chain to it is numbered and it sits on a root bus or its
  link leads through the chain; it is behind bridges in the second case.
\<close>

definition reachable :: "filesystem \<Rightarrow> string \<Rightarrow> string \<Rightarrow> (hop \<times> int) list \<Rightarrow> bool" where
  "reachable fs segment rb chain =
     (hex4 segment \<and> chain_numbered fs segment chain
      \<and> (on_root_bus fs segment (target chain) \<or> linked fs segment rb chain))"


text \<open>
  The slots of a chain are the device and function of each hop; its relative buses are
  the bus of each hop counted from the secondary bus of the bridge above it (from zero
  for the first hop). A path is written from the two: hop by hop the relative bus, the
  device and the function, with the segment in front when it is not \<open>0000\<close>.
\<close>

definition slots :: "(hop \<times> int) list \<Rightarrow> (string \<times> string) list" where
  "slots chain = map (\<lambda>hv. snd (fst hv)) chain"

fun relative_buses :: "int \<Rightarrow> (hop \<times> int) list \<Rightarrow> int list" where
  "relative_buses off [] = []"
| "relative_buses off (hv # r) = (int (fst (fst hv)) - off) # relative_buses (snd hv) r"

definition path_hops :: "int list \<Rightarrow> (string \<times> string) list \<Rightarrow> string list" where
  "path_hops rels sl = map (\<lambda>(rel, s). format_02x rel @ ''_'' @ fst s @ ''.'' @ snd s) (zip rels sl)"

definition path_text :: "string \<Rightarrow> int list \<Rightarrow> (string \<times> string) list \<Rightarrow> string" where
  "path_text segment rels sl =
     (if segment = ''0000'' then [] else segment @ ''_'') @ py_join ''-'' (path_hops rels sl)"

text \<open>The same tree after the hypervisor gave bus 5 to the first bridge and bus 6 to the second.\<close>

definition renumbered_links :: "(string \<times> string) list" where
  "renumbered_links =
     [(''/sys/bus/pci/devices/0000:00:03.0'', ''../../../devices/pci0000:00/0000:00:03.0''),
      (''/sys/bus/pci/devices/0000:00:1f.2'', ''../../../devices/pci0000:00/0000:00:1f.2''),
      (''/sys/bus/pci/devices/0000:05:01.0'',
         ''../../../devices/pci0000:00/0000:00:03.0/0000:05:01.0''),
      (''/sys/bus/pci/devices/0000:06:00.0'',
         ''../../../devices/pci0000:00/0000:00:03.0/0000:05:01.0/0000:06:00.0'')]"

definition renumbered_files :: "(string \<times> string) list" where
  "renumbered_files =
     [(''/sys/bus/pci/devices/0000:00:03.0/secondary_bus_number'', ''5'' @ [CHR 0x0A]),
      (''/sys/bus/pci/devices/0000:05:01.0/secondary_bus_number'', ''6'' @ [CHR 0x0A])]"

definition renumbered_fs :: filesystem where
  "renumbered_fs = fs_of [''system'', ''pci0000:00'', ''virtual''] renumbered_links renumbered_files"

text \<open>
  A tree in segment \<open>0001\<close> whose bridge \<open>40:1c.0\<close> has the secondary bus \<open>0x41\<close> and
  leads to the device \<open>43:00.1\<close>, two buses above; and the same tree with the bridge
  renumbered to \<open>0x50\<close> and the device, two buses above again, at \<open>52:00.1\<close>.
\<close>

definition offset_fs :: filesystem where
  "offset_fs =
     fs_of [''pci0001:40'']
       [(''/sys/bus/pci/devices/0001:40:1c.0'', ''../../../devices/pci0001:40/0001:40:1c.0''),
        (''/sys/bus/pci/devices/0001:43:00.1'',
           ''../../../devices/pci0001:40/0001:40:1c.0/0001:43:00.1'')]
       [(''/sys/bus/pci/devices/0001:40:1c.0/secondary_bus_number'', ''65'' @ [CHR 0x0A])]"


section \<open>Properties of the attachment handlers\<close>

lemma cache_get_example:
  "cache_get ''00_03.0'' =
     Inr \<lparr>ident = ''00_03.0'', bus = ''00'', device = ''03'', func = ''0'',
          vendor_cache = PyNone, vendor_id_cache = PyNone,
          product_cache = PyNone, product_id_cache = PyNone\<rparr>"
  by (simp add: cache_get_def PCIDevice_regex_def hex_triple_regex_def hexdigit_def)

text \<open>
  What the pre-attach handler does with an exception of its \<open>try\<close> block: only
  \<open>CalledProcessError\<close> is caught (logged, then dropped); any other exception leaves the
  handler as it is, with no log record added.
\<close>

lemma pre_attach_except_clause:
  assumes "path_exists h (sysfs_device_node i)" "\<not> is_AdminVM v" "virt_mode v \<noteq> ''pvh''"
    "is_running v" "attach_try h i = (tr, Some e)"
  shows "on_device_pre_attached_pci h v i =
           (if e = CalledProcessError then (tr @ [LogException (FailedAttach i) e], None)
            else (tr, Some e))"
  using assms by (simp add: on_device_pre_attached_pci_def)

text \<open>
  What the pre-detach handler does with an exception of its \<open>try\<close> block:
  \<open>CalledProcessError\<close> and libvirt errors are logged and raised again.
\<close>

lemma pre_detach_except_clause:
  assumes "is_running v" "cache_get i = Inr dev" "xl_pci_list h (xid v) = Inr listing"
    "re_search h (pci_list_pattern i) listing = Some vmdev"
    "detach_try h i vmdev = (tr, Some e)" "e = CalledProcessError \<or> is_libvirtError e"
  shows "on_device_pre_detached_pci h v i =
           (XlPciList (xid v) # tr @ [LogException (FailedDetach i) e], Some e)"
  using assms by (auto simp add: on_device_pre_detached_pci_def)

text \<open>
  C4 (attach/detach failure asymmetry), the attach half at a failing input. The guest runs,
  the device exists and binds, and the hypervisor's \<open>attachDevice\<close> raises a libvirt error.
  The handler's \<open>except\<close> clause names \<open>CalledProcessError\<close> only, so the libvirt error is
  not logged and reaches the caller, where the claim says it is logged and dropped.
\<close>

theorem pre_attach_libvirt_error_propagates:
  "on_device_pre_attached_pci libvirt_failing_host a_vm ''00_03.0'' =
     ([NodeDeviceLookup ''pci_0000_00_03_0'', Dettach ''pci_0000_00_03_0'',
       AttachDevice ''<hostdev 00_03.0/>''],
      Some (LibvirtError VIR_ERR_OTHER))"
  by (simp add: on_device_pre_attached_pci_def attach_try_def bind_pci_to_pciback_def
      cache_get_example libvirt_name_def libvirt_failing_host_def a_host_def a_vm_def
      a_nodedev_def sysfs_device_node_def replace_char_def)

text \<open>
  C5 (pre-attach validation is atomic and ordered). A device whose node is not in the
  device tree makes the handler raise \<open>QubesException\<close> with nothing done; so does a guest
  that is the admin domain or in pvh mode; for a guest that is not running nothing is done
  either, and with the validation passed the handler returns.
\<close>

theorem pre_attach_validation_first:
  "(\<not> path_exists h (sysfs_device_node i) \<longrightarrow>
      on_device_pre_attached_pci h v i = ([], Some (QubesException (InvalidPCIDevice i))))
   \<and> (is_AdminVM v \<or> virt_mode v = ''pvh'' \<longrightarrow>
      (\<exists>m. on_device_pre_attached_pci h v i = ([], Some (QubesException m))))
   \<and> (\<not> is_running v \<longrightarrow> fst (on_device_pre_attached_pci h v i) = [])
   \<and> (path_exists h (sysfs_device_node i) \<and> \<not> is_AdminVM v \<and> virt_mode v \<noteq> ''pvh''
        \<and> \<not> is_running v \<longrightarrow>
      on_device_pre_attached_pci h v i = ([], None))"
  by (simp add: on_device_pre_attached_pci_def)

theorem pre_attach_validation_first_witness:
  "\<not> path_exists a_host (sysfs_device_node ''00_04.0'')
   \<and> on_device_pre_attached_pci a_host a_vm ''00_04.0'' =
       ([], Some (QubesException (InvalidPCIDevice ''00_04.0'')))
   \<and> virt_mode pvh_vm = ''pvh''
   \<and> (\<exists>m. on_device_pre_attached_pci a_host pvh_vm ''00_03.0'' = ([], Some (QubesException m)))
   \<and> path_exists a_host (sysfs_device_node ''00_03.0'') \<and> \<not> is_AdminVM halted_vm
   \<and> virt_mode halted_vm \<noteq> ''pvh'' \<and> \<not> is_running halted_vm
   \<and> fst (on_device_pre_attached_pci a_host halted_vm ''00_03.0'') = []
   \<and> on_device_pre_attached_pci a_host halted_vm ''00_03.0'' = ([], None)"
proof -
  have e1: "\<not> path_exists a_host (sysfs_device_node ''00_04.0'')"
    by (simp add: a_host_def sysfs_device_node_def replace_char_def)
  have e2: "path_exists a_host (sysfs_device_node ''00_03.0'')"
    by (simp add: a_host_def sysfs_device_node_def replace_char_def)
  have v1: "virt_mode pvh_vm = ''pvh''" by (simp add: pvh_vm_def)
  have v2: "\<not> is_AdminVM halted_vm \<and> virt_mode halted_vm \<noteq> ''pvh'' \<and> \<not> is_running halted_vm"
    by (simp add: halted_vm_def)
  show ?thesis
    using e1 e2 v1 v2
      pre_attach_validation_first [of a_host "''00_04.0''" a_vm]
      pre_attach_validation_first [of a_host "''00_03.0''" pvh_vm]
      pre_attach_validation_first [of a_host "''00_03.0''" halted_vm]
    by blast
qed

text \<open>
  C9 (idempotent detach on an absent device). The guest runs, the identifier is that of a
  PCI device, and the search of the guest's \<open>xl pci-list\<close> output for the device's host
  address finds nothing: the handler logs "already detached" and returns, having called
  neither the guest's detach service nor the hypervisor.
\<close>

theorem pre_detach_already_detached:
  assumes "is_running v" "cache_get i = Inr dev" "xl_pci_list h (xid v) = Inr listing"
    "re_search h (pci_list_pattern i) listing = None"
  shows "on_device_pre_detached_pci h v i =
           ([XlPciList (xid v), LogError (AlreadyDetached i)], None)"
  using assms by (simp add: on_device_pre_detached_pci_def)

theorem pre_detach_already_detached_witness:
  "is_running a_vm \<and> (\<exists>dev. cache_get ''00_03.0'' = Inr dev)
   \<and> xl_pci_list a_host (xid a_vm) = Inr ''''
   \<and> re_search a_host (pci_list_pattern ''00_03.0'') '''' = None
   \<and> on_device_pre_detached_pci a_host a_vm ''00_03.0'' =
       ([XlPciList 5, LogError (AlreadyDetached ''00_03.0'')], None)"
proof -
  have r: "is_running a_vm" by (simp add: a_vm_def)
  have x: "xl_pci_list a_host (xid a_vm) = Inr ''''" by (simp add: a_host_def)
  have s: "re_search a_host (pci_list_pattern ''00_03.0'') '''' = None"
    by (simp add: a_host_def)
  have "xid a_vm = 5" by (simp add: a_vm_def)
  then show ?thesis
    using r x s cache_get_example pre_detach_already_detached [OF r cache_get_example x s]
    by simp
qed

section \<open>Properties of the class lookup and of the metadata cache\<close>

text \<open>
  C3, as stated, fails: with \<open>pci.ids\<close> missing, a device whose class attribute is readable
  and an empty cache, \<open>load_pci_classes\<close> raises \<open>FileNotFoundError\<close> and \<open>pcidev_class\<close>
  lets it through.
\<close>

theorem pcidev_class_missing_table_raises:
  "pcidev_class fs_without_pci_ids None (Some ''/sys/devices/pci0000:00/0000:00:03.0'') =
     (Inl FileNotFoundError, None)"
  by (simp add: pcidev_class_def load_pci_classes_def fs_without_pci_ids_def pci_ids_file_def)

text \<open>
  C3 as amended. With \<open>pci.ids\<close> missing: a device whose class attribute cannot be read
  (an \<open>OSError\<close>) gives \<open>unknown\<close> and leaves the cache alone; a device whose class
  attribute reads, met with no table cached, gives the \<open>FileNotFoundError\<close> of
  \<open>load_pci_classes\<close> to the caller.
\<close>

theorem pcidev_class_missing_table:
  assumes "readlines fs pci_ids_file = Inl FileNotFoundError" "truthy sysfs_path"
  shows "(read_text fs (the sysfs_path @ ''/class'') = Inl e \<and> is_OSError e \<longrightarrow>
            pcidev_class fs pci_classes sysfs_path = (Inr ''unknown'', pci_classes))
         \<and> (read_text fs (the sysfs_path @ ''/class'') = Inr content
              \<and> (pci_classes = None \<or> pci_classes = Some []) \<longrightarrow>
            pcidev_class fs pci_classes sysfs_path = (Inl FileNotFoundError, pci_classes))"
  using assms by (auto simp add: pcidev_class_def load_pci_classes_def Let_def)

theorem pcidev_class_missing_table_witness:
  "readlines fs_without_pci_ids pci_ids_file = Inl FileNotFoundError
   \<and> truthy (Some ''/sys/devices/pci0000:00/0000:00:04.0'')
   \<and> read_text fs_without_pci_ids (''/sys/devices/pci0000:00/0000:00:04.0'' @ ''/class'')
       = Inl FileNotFoundError
   \<and> is_OSError FileNotFoundError
   \<and> pcidev_class fs_without_pci_ids None (Some ''/sys/devices/pci0000:00/0000:00:04.0'')
       = (Inr ''unknown'', None)
   \<and> read_text fs_without_pci_ids (''/sys/devices/pci0000:00/0000:00:03.0'' @ ''/class'')
       = Inr (''0x020000'' @ [CHR 0x0A])
   \<and> pcidev_class fs_without_pci_ids (Some []) (Some ''/sys/devices/pci0000:00/0000:00:03.0'')
       = (Inl FileNotFoundError, Some [])"
proof -
  have a: "readlines fs_without_pci_ids pci_ids_file = Inl FileNotFoundError"
    by (simp add: fs_without_pci_ids_def)
  have r4: "read_text fs_without_pci_ids
              (the (Some ''/sys/devices/pci0000:00/0000:00:04.0'') @ ''/class'')
            = Inl FileNotFoundError"
    by (simp add: fs_without_pci_ids_def)
  have r3: "read_text fs_without_pci_ids
              (the (Some ''/sys/devices/pci0000:00/0000:00:03.0'') @ ''/class'')
            = Inr (''0x020000'' @ [CHR 0x0A])"
    by (simp add: fs_without_pci_ids_def)
  have t4: "truthy (Some ''/sys/devices/pci0000:00/0000:00:04.0'')" by simp
  have t3: "truthy (Some ''/sys/devices/pci0000:00/0000:00:03.0'')" by simp
  from pcidev_class_missing_table [OF a t4, where e = FileNotFoundError and pci_classes = None] r4
  have c4: "pcidev_class fs_without_pci_ids None (Some ''/sys/devices/pci0000:00/0000:00:04.0'')
              = (Inr ''unknown'', None)"
    by simp
  from pcidev_class_missing_table
         [OF a t3, where content = "''0x020000'' @ [CHR 0x0A]" and pci_classes = "Some []"] r3
  have c3: "pcidev_class fs_without_pci_ids (Some []) (Some ''/sys/devices/pci0000:00/0000:00:03.0'')
              = (Inl FileNotFoundError, Some [])"
    by simp
  show ?thesis using a r4 r3 c4 c3 by simp
qed

text \<open>What \<open>load_pci_classes\<close> builds from a table that exists.\<close>

lemma load_pci_classes_example:
  "load_pci_classes_loop
     [''C 02  Network controller'',
      [CHR 0x09] @ ''00  Ethernet controller'',
      [CHR 0x09] @ ''80  Network controller'',
      ''C 0c  Serial bus controller'',
      [CHR 0x09] @ ''03  USB controller'',
      [CHR 0x09, CHR 0x09] @ ''30  XHCI''] (None, None, [])
   = Inr [(''020000'', ''Ethernet controller''), (''0200'', ''Ethernet controller''),
          (''028000'', ''Network controller''), (''0280'', ''Network controller''),
          (''0c0000'', ''Serial bus controller''), (''0c00'', ''Serial bus controller''),
          (''0c0300'', ''USB controller''), (''0c03'', ''USB controller''),
          (''0c0330'', ''XHCI'')]"
  by code_simp

text \<open>
  What the class lookup does with a table already in the cache: the file is not opened,
  the answer comes from the cache.
\<close>

lemma pcidev_class_cached_table:
  assumes "truthy sysfs_path" "read_text fs (the sysfs_path @ ''/class'') = Inr content"
    "classes \<noteq> []"
  shows "\<exists>n. pcidev_class fs (Some classes) sysfs_path = (Inr n, Some classes)"
  using assms by (auto simp add: pcidev_class_def Let_def split: option.splits)

text \<open>
  What the loader and the two accessors do on a domain that is not running: they return
  the defaults and hand the device back as it was. Whenever one of them changes a cache
  field, the domain was running and the lookup had succeeded.
\<close>

lemma load_desc_defaults_not_cached:
  "(\<not> running \<longrightarrow>
      load_desc h running dev = Inr (unknown_desc, dev)
      \<and> (vendor_cache dev = PyNone \<longrightarrow> vendor h running dev = Inr (PyStr ''unknown'', dev))
      \<and> (product_cache dev = PyNone \<longrightarrow> product h running dev = Inr (PyStr ''unknown'', dev)))
   \<and> (\<forall>r dev'. (load_desc h running dev = Inr (r, dev') \<or> vendor h running dev = Inr (r', dev')
                  \<or> product h running dev = Inr (r', dev'))
                \<and> cache_fields dev' \<noteq> cache_fields dev \<longrightarrow>
         running \<and> (\<exists>node. nodeDeviceLookupByName h (libvirt_name dev) = Inr node))"
  by (auto simp add: load_desc_def vendor_def product_def unknown_desc_def
      split: sum.splits if_splits)

text \<open>
  After such an access the \<open>vendor\<close> accessor asks libvirt again once the domain runs,
  and stores what it is told.
\<close>

lemma vendor_queries_when_running:
  assumes "vendor_cache dev = PyNone" "nodeDeviceLookupByName h (libvirt_name dev) = Inr node"
  shows "vendor h False dev = Inr (PyStr ''unknown'', dev)"
    and "vendor h True dev =
           Inr (findtext (nd_vendor node),
                dev\<lparr>vendor_cache := findtext (nd_vendor node),
                    vendor_id_cache := PyList (nd_vendor_id node),
                    product_cache := findtext (nd_product node),
                    product_id_cache := PyList (nd_product_id node)\<rparr>)"
  using assms by (simp_all add: vendor_def load_desc_def unknown_desc_def)

text \<open>
  C8 (sentinel metadata is never cached), at a failing input. The device has nothing
  cached and its backend domain is not running. Reading \<open>self_identity\<close> takes the defaults
  from \<open>_load_desc\<close> and stores them, sanitised, in \<open>_vendor_id\<close> and \<open>_product_id\<close>;
  read again once the domain runs, it finds the two fields set and keeps \<open>0000\<close> without
  asking libvirt, which would have answered with the identifiers of the device.
\<close>

theorem self_identity_caches_defaults:
  "self_identity_ids a_host False a_device =
     Inr (a_device\<lparr>vendor_id_cache := PyStr ''0000'', product_id_cache := PyStr ''0000''\<rparr>)
   \<and> self_identity_ids a_host True
         (a_device\<lparr>vendor_id_cache := PyStr ''0000'', product_id_cache := PyStr ''0000''\<rparr>) =
     Inr (a_device\<lparr>vendor_id_cache := PyStr ''0000'', product_id_cache := PyStr ''0000''\<rparr>)
   \<and> load_desc a_host True a_device =
     Inr (unknown_desc\<lparr>d_vendor := PyStr ''Intel Corporation'',
                        d_vendor_ID := PyList [''0x8086''],
                        d_product := PyStr ''Ethernet'',
                        d_product_ID := PyList [''0x1502'']\<rparr>,
          a_device\<lparr>vendor_cache := PyStr ''Intel Corporation'',
                   vendor_id_cache := PyList [''0x8086''],
                   product_cache := PyStr ''Ethernet'',
                   product_id_cache := PyList [''0x1502'']\<rparr>)"
  by (simp add: self_identity_ids_def load_desc_def unknown_desc_def a_device_def
      allowed_chars_def a_host_def a_nodedev_def libvirt_name_def)

section \<open>Properties of the topology codec\<close>

lemma path_loop_append:
  "path_loop fs (xs @ ys) st =
     (case path_loop fs xs st of Inl e \<Rightarrow> Inl e | Inr st' \<Rightarrow> path_loop fs ys st')"
  by (induction xs arbitrary: st) (auto split: sum.splits)

text \<open>
  C6, as stated, fails: the device \<open>00:1f.2\<close> reports no secondary bus number, a hop
  follows it in the path, and \<open>path_to_sbdf\<close> raises \<open>AssertionError\<close> at that next hop
  instead of returning \<open>0000:00:1f.2\<close>.
\<close>

theorem path_to_sbdf_terminal_hop_counterexample:
  "read_text tree_fs (secondary_bus_number_file ''0000:00:1f.2'') = Inl FileNotFoundError
   \<and> path_to_sbdf tree_fs ''00_1f.2-00_00.0'' = Inl AssertionError"
  by code_simp

text \<open>
  C6 as amended. The hops before \<open>p\<close> decode to a loop state whose offset is not \<open>-1\<close>,
  the hop \<open>p\<close> parses to the live address \<open>dev\<close>, and that device has no
  \<open>secondary_bus_number\<close>. Then \<open>path_to_sbdf\<close> returns \<open>dev\<close> when \<open>p\<close> is the last hop
  of the path, and raises \<open>AssertionError\<close> when hops remain.
\<close>

theorem path_to_sbdf_terminal_hop:
  assumes "py_split CHR ''-'' path = pre @ p # rest"
      and "path_loop fs pre (''0000'', 0, []) = Inr (segment, bus_offset, current_dev)"
      and "bus_offset \<noteq> -1"
      and "hop_address segment bus_offset p = Some (segment', dev)"
      and "read_text fs (secondary_bus_number_file dev) = Inl FileNotFoundError"
  shows "path_to_sbdf fs path = (if rest = [] then Inr dev else Inl AssertionError)"
proof -
  have step: "path_step fs p (segment, bus_offset, current_dev) = Inr (segment', -1, dev)"
    using assms(3,4,5) by (simp add: path_step_def read_secondary_def)
  have "path_loop fs (p # rest) (segment, bus_offset, current_dev) =
          (if rest = [] then Inr (segment', -1, dev) else Inl AssertionError)"
    using step by (cases rest) (simp_all add: path_step_def)
  then show ?thesis
    using assms(1,2) by (simp add: path_to_sbdf_def path_loop_append)
qed

theorem path_to_sbdf_terminal_hop_witness:
  "py_split CHR ''-'' ''00_03.0-00_01.0-00_00.0'' = [''00_03.0'', ''00_01.0''] @ ''00_00.0'' # []
   \<and> path_loop tree_fs [''00_03.0'', ''00_01.0''] (''0000'', 0, []) = Inr (''0000'', 3, ''0000:02:01.0'')
   \<and> hop_address ''0000'' 3 ''00_00.0'' = Some (''0000'', ''0000:03:00.0'')
   \<and> read_text tree_fs (secondary_bus_number_file ''0000:03:00.0'') = Inl FileNotFoundError
   \<and> path_to_sbdf tree_fs ''00_03.0-00_01.0-00_00.0'' = Inr ''0000:03:00.0''"
proof -
  have a: "py_split CHR ''-'' ''00_03.0-00_01.0-00_00.0'' = [''00_03.0'', ''00_01.0''] @ ''00_00.0'' # []"
    by code_simp
  have b: "path_loop tree_fs [''00_03.0'', ''00_01.0''] (''0000'', 0, []) = Inr (''0000'', 3, ''0000:02:01.0'')"
    by code_simp
  have c: "(3::int) \<noteq> -1" by simp
  have d: "hop_address ''0000'' 3 ''00_00.0'' = Some (''0000'', ''0000:03:00.0'')"
    by code_simp
  have e: "read_text tree_fs (secondary_bus_number_file ''0000:03:00.0'') = Inl FileNotFoundError"
    by code_simp
  show ?thesis using a b d e path_to_sbdf_terminal_hop [OF a b c d e] by simp
qed

text \<open>
  C10 (a valid identifier of an absent device). The identifier matches, its bus is not a
  root bus, and the device has no entry under \<open>/sys/bus/pci/devices\<close>: \<open>sbdf_to_path\<close>
  returns \<open>None\<close>, and the migration step of \<open>load_extras\<close> keeps the identifier as the
  port id.
\<close>

theorem sbdf_to_path_absent_device:
  assumes "sbdf_regex device_id = Some (seg, b, d, f)"
      and "segment = (case seg of Some s \<Rightarrow> s | None \<Rightarrow> ''0000'')"
      and "segment @ '':'' @ b \<notin> set (root_buses fs)"
      and "readlink fs (sysfs_pci_devs_base @ ''/'' @ segment @ '':'' @ b @ '':'' @ d @ ''.'' @ f)
             = Inl FileNotFoundError"
  shows "sbdf_to_path fs device_id = Inr None
         \<and> migrate_port_id fs ''pci'' device_id = Inr device_id"
  using assms by (simp add: sbdf_to_path_def migrate_port_id_def)

theorem sbdf_to_path_absent_device_witness:
  "sbdf_regex ''04_00.0'' = Some (None, ''04'', ''00'', ''0'')
   \<and> ''0000'' @ '':'' @ ''04'' \<notin> set (root_buses tree_fs)
   \<and> readlink tree_fs (sysfs_pci_devs_base @ ''/'' @ ''0000'' @ '':'' @ ''04'' @ '':'' @ ''00'' @ ''.'' @ ''0'')
        = Inl FileNotFoundError
   \<and> sbdf_to_path tree_fs ''04_00.0'' = Inr None
   \<and> migrate_port_id tree_fs ''pci'' ''04_00.0'' = Inr ''04_00.0''"
proof -
  have a: "sbdf_regex ''04_00.0'' = Some (None, ''04'', ''00'', ''0'')" by code_simp
  have s: "''0000'' = (case (None :: string option) of Some s \<Rightarrow> s | None \<Rightarrow> ''0000'')" by simp
  have b: "''0000'' @ '':'' @ ''04'' \<notin> set (root_buses tree_fs)" by code_simp
  have c: "readlink tree_fs (sysfs_pci_devs_base @ ''/'' @ ''0000'' @ '':'' @ ''04'' @ '':'' @ ''00'' @ ''.'' @ ''0'')
        = Inl FileNotFoundError" by code_simp
  show ?thesis using a b c sbdf_to_path_absent_device [OF a s b c] by simp
qed

section \<open>Properties of the path recogniser\<close>

lemma hexdigit_not_sep:
  "hexdigit c \<Longrightarrow> c \<noteq> CHR ''_'' \<and> c \<noteq> CHR ''.'' \<and> c \<noteq> CHR ''-'' \<and> c \<noteq> CHR '':''
     \<and> c \<noteq> CHR ''/'' \<and> c \<noteq> CHR 0x0A"
  by (auto simp add: hexdigit_def)

lemma hex1E: "hex1 s \<Longrightarrow> (\<And>a. s = [a] \<Longrightarrow> hexdigit a \<Longrightarrow> P) \<Longrightarrow> P"
  by (cases s rule: hex1.cases) simp_all

lemma hex2E: "hex2 s \<Longrightarrow> (\<And>a b. s = [a, b] \<Longrightarrow> hexdigit a \<Longrightarrow> hexdigit b \<Longrightarrow> P) \<Longrightarrow> P"
  by (cases s rule: hex2.cases) simp_all

lemma hex4E:
  "hex4 s \<Longrightarrow>
   (\<And>a b c d. s = [a, b, c, d] \<Longrightarrow> hexdigit a \<Longrightarrow> hexdigit b \<Longrightarrow> hexdigit c \<Longrightarrow> hexdigit d \<Longrightarrow> P)
   \<Longrightarrow> P"
  by (cases s rule: hex4.cases) simp_all

lemma startswith_Nil [simp]: "startswith [] s"
  by (simp add: startswith_def)

lemma startswith_Cons_Nil [simp]: "\<not> startswith (a # p) []"
  by (simp add: startswith_def)

lemma startswith_Cons_Cons [simp]: "startswith (a # p) (x # s) \<longleftrightarrow> a = x \<and> startswith p s"
  by (auto simp add: startswith_def)

lemma py_join_hops:
  "py_join ''-'' (map hop_text (h # hs)) = hop_text h @ concat (map (\<lambda>h. CHR ''-'' # hop_text h) hs)"
  by (induction hs arbitrary: h) simp_all

lemma more_hops_step:
  "hexdigit b1 \<Longrightarrow> hexdigit b2 \<Longrightarrow> hexdigit d1 \<Longrightarrow> hexdigit d2 \<Longrightarrow> hexdigit f1 \<Longrightarrow> more_hops t \<Longrightarrow>
   more_hops (CHR ''-'' # b1 # b2 # CHR ''_'' # d1 # d2 # CHR ''.'' # f1 # t)"
  by simp

lemma hop_okE:
  assumes "hop_ok h"
  obtains b1 b2 d1 d2 f1 where "h = ([b1, b2], [d1, d2], [f1])"
    "hexdigit b1" "hexdigit b2" "hexdigit d1" "hexdigit d2" "hexdigit f1"
proof -
  obtain b d f where h: "h = (b, d, f)" by (cases h)
  with assms have "hex2 b" "hex2 d" "hex1 f" by (simp_all add: hop_ok_def)
  then show ?thesis using h that by (elim hex2E hex1E) simp
qed

lemma more_hops_tail:
  "list_all hop_ok hs \<Longrightarrow> more_hops (concat (map (\<lambda>h. CHR ''-'' # hop_text h) hs))"
proof (induction hs)
  case Nil
  then show ?case by simp
next
  case (Cons h hs)
  from Cons.prems have "hop_ok h" by simp
  then obtain b1 b2 d1 d2 f1 where h: "h = ([b1, b2], [d1, d2], [f1])"
    and hx: "hexdigit b1" "hexdigit b2" "hexdigit d1" "hexdigit d2" "hexdigit f1"
    by (rule hop_okE)
  from Cons have t: "more_hops (concat (map (\<lambda>h. CHR ''-'' # hop_text h) hs))" by simp
  show ?case using more_hops_step [OF hx t] by (simp add: h hop_text_def)
qed

lemma path_tailD:
  "path_tail s \<Longrightarrow> 5 \<le> length s \<and> s ! 0 = CHR ''_'' \<and> s ! 3 = CHR ''.''"
  by (cases s rule: path_tail.cases) simp_all

lemma startswith_take: "startswith p s \<Longrightarrow> p = take (length p) s"
  by (simp add: startswith_def)

lemma take7:
  "take 7 (s1 # s2 # s3 # s4 # u # b1 # b2 # r) = [s1, s2, s3, s4, u, b1, b2]"
  by (simp add: numeral_eq_Suc)

lemma nth_explicit:
  fixes i :: string
  assumes i: "i = x0 # x1 # x2 # x3 # x4 # x5 # x6 # x7 # x8 # x9 # x10 # x11 # t"
  shows "i ! 0 = x0" "i ! 1 = x1" "i ! 2 = x2" "i ! 3 = x3" "i ! 4 = x4" "i ! 5 = x5" "i ! 6 = x6"
        "i ! 7 = x7" "i ! 8 = x8" "i ! 9 = x9" "i ! 10 = x10" "i ! 11 = x11" "12 \<le> length i"
  using i by (simp_all add: numeral_eq_Suc)

lemma plain_name_no_dot:
  assumes "plain_name rb"
  shows "CHR ''.'' \<notin> set rb"
proof -
  have "CHR ''.'' \<notin> set ''0123456789abcdefghijklmnopqrstuvwxyz_''" by simp
  then show ?thesis using assms unfolding plain_name_def list_all_iff by blast
qed

lemma position_cases:
  "m \<le> (10::nat) \<Longrightarrow>
   m = 7 \<or> m = 4 \<or> m = 10 \<or> m < 4 \<or> m = 5 \<or> m = 6 \<or> m = 8 \<or> m = 9"
  by presburger

lemma below_4_cases: "m < (4::nat) \<Longrightarrow> m = 0 \<or> m = 1 \<or> m = 2 \<or> m = 3"
  by presburger

lemma root_bus_alternative:
  assumes hx: "hexdigit s1" "hexdigit s2" "hexdigit s3" "hexdigit s4"
              "hexdigit b1" "hexdigit b2" "hexdigit d1" "hexdigit d2" "hexdigit f1"
      and t: "more_hops t"
      and i: "i = s1 # s2 # s3 # s4 # CHR ''_'' # b1 # b2 # CHR ''_'' # d1 # d2 # CHR ''.'' # f1 # t"
      and pl: "plain_name rb"
  shows "(startswith rb i \<and> path_tail (drop (length rb) i)) \<longleftrightarrow>
           rb = [s1, s2, s3, s4, CHR ''_'', b1, b2]"
proof
  assume r: "rb = [s1, s2, s3, s4, CHR ''_'', b1, b2]"
  have "startswith rb i" unfolding r i by simp
  moreover have "drop (length rb) i = CHR ''_'' # d1 # d2 # CHR ''.'' # f1 # t"
    unfolding r i by simp
  moreover have "path_tail (CHR ''_'' # d1 # d2 # CHR ''.'' # f1 # t)"
    using hx t by simp
  ultimately show "startswith rb i \<and> path_tail (drop (length rb) i)" by simp
next
  assume a: "startswith rb i \<and> path_tail (drop (length rb) i)"
  define n where "n = length rb"
  have rb: "rb = take n i" using a startswith_take n_def by blast
  have pt: "5 \<le> length (drop n i) \<and> drop n i ! 0 = CHR ''_'' \<and> drop n i ! 3 = CHR ''.''"
    using a path_tailD n_def by blast
  then have "5 \<le> length i - n" by simp
  then have len: "n + 5 \<le> length i" by arith
  from pt len have u: "i ! n = CHR ''_''" by simp
  from pt len have p: "i ! (n + 3) = CHR ''.''" by simp
  have dot: "CHR ''.'' \<notin> set rb"
    using pl by (rule plain_name_no_dot)
  note nth = nth_explicit [OF i]
  have "n \<le> 10"
  proof (rule ccontr)
    assume "\<not> n \<le> 10"
    then have "10 < n" by simp
    moreover have "10 < length i" using nth(13) by simp
    ultimately have "take n i ! 10 = i ! 10" and "10 < length (take n i)" by simp_all
    then have "i ! 10 \<in> set (take n i)" by (metis nth_mem)
    with nth(11) rb dot show False by simp
  qed
  then consider "n = 0" | "n = 1" | "n = 2" | "n = 3" | "n = 4" | "n = 5" | "n = 6" | "n = 7"
    | "n = 8" | "n = 9" | "n = 10"
    using position_cases [of n] below_4_cases [of n] by blast
  then have "n = 7"
  proof cases
    case 1 with u nth(1) hx(1) [THEN hexdigit_not_sep] show ?thesis by simp
  next
    case 2 with u nth(2) hx(2) [THEN hexdigit_not_sep] show ?thesis by simp
  next
    case 3 with u nth(3) hx(3) [THEN hexdigit_not_sep] show ?thesis by simp
  next
    case 4 with u nth(4) hx(4) [THEN hexdigit_not_sep] show ?thesis by simp
  next
    case 5 with p nth(8) show ?thesis by simp
  next
    case 6 with u nth(6) hx(5) [THEN hexdigit_not_sep] show ?thesis by simp
  next
    case 7 with u nth(7) hx(6) [THEN hexdigit_not_sep] show ?thesis by simp
  next
    case 8 then show ?thesis .
  next
    case 9 with u nth(9) hx(7) [THEN hexdigit_not_sep] show ?thesis by simp
  next
    case 10 with u nth(10) hx(8) [THEN hexdigit_not_sep] show ?thesis by simp
  next
    case 11 with u nth(11) show ?thesis by simp
  qed
  with rb show "rb = [s1, s2, s3, s4, CHR ''_'', b1, b2]" unfolding i by (simp only: take7)
qed

lemma hexdigit_0 [simp]: "hexdigit CHR ''0''"
  by (simp add: hexdigit_def)

lemma segment_okE:
  assumes "segment_ok seg"
  obtains s1 s2 s3 s4 where "segment_or_default seg = [s1, s2, s3, s4]"
    "hexdigit s1" "hexdigit s2" "hexdigit s3" "hexdigit s4"
proof (cases seg)
  case None
  then have "segment_or_default seg = [CHR ''0'', CHR ''0'', CHR ''0'', CHR ''0'']"
    by (simp add: segment_or_default_def)
  then show ?thesis using that by simp
next
  case (Some s)
  with assms have "hex4 s" by (simp add: segment_ok_def)
  then show ?thesis using that Some by (elim hex4E) (simp add: segment_or_default_def)
qed

text \<open>The identifier after the optional \<open>0000_\<close> that \<open>is_pci_path\<close> puts in front.\<close>

lemma is_pci_path_prefixed:
  assumes "segment_ok seg" "hexdigit b1" "hexdigit b2"
  shows "(let device_id = segment_prefix seg @ b1 # b2 # CHR ''_'' # r in
          if length device_id > 2 \<and> device_id ! 2 = CHR ''_''
          then ''0000_'' @ device_id else device_id)
         = segment_or_default seg @ CHR ''_'' # b1 # b2 # CHR ''_'' # r"
proof (cases seg)
  case None
  then show ?thesis
    by (simp add: segment_prefix_def segment_or_default_def numeral_eq_Suc)
next
  case (Some s)
  with assms have "hex4 s" by (simp add: segment_ok_def)
  then obtain s1 s2 s3 s4 where s: "s = [s1, s2, s3, s4]" and h3: "hexdigit s3"
    by (elim hex4E) simp
  from h3 have "s3 \<noteq> CHR ''_''" by (simp add: hexdigit_not_sep)
  then show ?thesis
    using Some s by (simp add: segment_prefix_def segment_or_default_def numeral_eq_Suc)
qed

text \<open>
  C7 as amended. For an identifier made of an optional segment and one or more hops
  \<open>bb_dd.f\<close> joined by dashes, \<open>is_pci_path\<close> is true exactly when the segment
  (\<open>0000\<close> when absent) and the bus of the first hop name a root bus of the host. So a
  flat \<open>bb_dd.f\<close> is rejected when its bus is not a root bus and accepted when it is, and
  every multi-hop path that starts on a root bus is accepted, with or without a segment.
  The names of the root buses are plain (letters, digits and \<open>_\<close>).
\<close>

theorem is_pci_path_iff_root_bus:
  assumes ne: "hops \<noteq> []" and ok: "list_all hop_ok hops" and sg: "segment_ok seg"
      and pl: "list_all plain_name (root_buses_us fs)"
  shows "is_pci_path fs (segment_prefix seg @ py_join ''-'' (map hop_text hops))
         \<longleftrightarrow> segment_or_default seg @ ''_'' @ fst (hd hops) \<in> set (root_buses_us fs)"
proof -
  from ne obtain h hs where hops: "hops = h # hs" by (cases hops) auto
  with ok have "hop_ok h" and oks: "list_all hop_ok hs" by simp_all
  then obtain b1 b2 d1 d2 f1 where h: "h = ([b1, b2], [d1, d2], [f1])"
    and hx: "hexdigit b1" "hexdigit b2" "hexdigit d1" "hexdigit d2" "hexdigit f1"
    by (elim hop_okE)
  define t where "t = concat (map (\<lambda>h. CHR ''-'' # hop_text h) hs)"
  have t: "more_hops t" unfolding t_def using oks by (rule more_hops_tail)
  from sg obtain s1 s2 s3 s4 where S: "segment_or_default seg = [s1, s2, s3, s4]"
    and sx: "hexdigit s1" "hexdigit s2" "hexdigit s3" "hexdigit s4"
    by (rule segment_okE)
  define i where "i = s1 # s2 # s3 # s4 # CHR ''_'' # b1 # b2 # CHR ''_'' # d1 # d2 # CHR ''.'' # f1 # t"
  define target where "target = [s1, s2, s3, s4, CHR ''_'', b1, b2]"
  have ptext: "segment_prefix seg @ py_join ''-'' (map hop_text hops)
              = segment_prefix seg @ b1 # b2 # CHR ''_'' # (d1 # d2 # CHR ''.'' # f1 # t)"
    unfolding hops py_join_hops t_def by (simp add: h hop_text_def)
  have norm: "(let device_id = segment_prefix seg @ py_join ''-'' (map hop_text hops) in
               if length device_id > 2 \<and> device_id ! 2 = CHR ''_''
               then ''0000_'' @ device_id else device_id) = i"
    unfolding ptext using is_pci_path_prefixed [OF sg hx(1) hx(2)] by (simp add: S i_def)
  have alt: "(startswith rb i \<and> path_tail (drop (length rb) i)) \<longleftrightarrow> rb = target"
    if "plain_name rb" for rb
    unfolding target_def using sx hx t i_def that by (rule root_bus_alternative)
  have tgt: "segment_or_default seg @ ''_'' @ fst (hd hops) = target"
    by (simp add: S hops h target_def)
  have "is_pci_path fs (segment_prefix seg @ py_join ''-'' (map hop_text hops))
        = list_ex (\<lambda>rb. startswith rb i \<and> path_tail (drop (length rb) i))
            (if root_buses_us fs = [] then [[]] else root_buses_us fs)"
    using norm by (simp add: is_pci_path_def Let_def)
  also have "\<dots> \<longleftrightarrow> target \<in> set (root_buses_us fs)"
  proof (cases "root_buses_us fs = []")
    case True
    have "plain_name []" by (simp add: plain_name_def)
    from alt [OF this] have "\<not> (startswith [] i \<and> path_tail (drop (length ([]::string)) i))"
      by (simp add: target_def)
    with True show ?thesis by simp
  next
    case False
    have "list_ex (\<lambda>rb. startswith rb i \<and> path_tail (drop (length rb) i)) (root_buses_us fs)
          \<longleftrightarrow> (\<exists>rb \<in> set (root_buses_us fs). rb = target)"
      unfolding list_ex_iff using alt pl by (auto simp add: list_all_iff)
    with False show ?thesis by auto
  qed
  finally show ?thesis using tgt by simp
qed

text \<open>
  C7, as stated, fails: \<open>00_1f.2\<close> is a flat \<open>bb_dd.f\<close> identifier, its bus is the root bus,
  and \<open>is_pci_path\<close> accepts it.
\<close>

theorem is_pci_path_flat_root_bus_counterexample:
  "is_pci_path tree_fs ''00_1f.2'' = True"
  by code_simp

theorem is_pci_path_iff_root_bus_witness:
  "[(''00'', ''03'', ''0''), (''00'', ''01'', ''0''), (''00'', ''00'', ''0'')] \<noteq> []
   \<and> list_all hop_ok [(''00'', ''03'', ''0''), (''00'', ''01'', ''0''), (''00'', ''00'', ''0'')]
   \<and> segment_ok None \<and> list_all plain_name (root_buses_us tree_fs)
   \<and> ''0000_00'' \<in> set (root_buses_us tree_fs)
   \<and> is_pci_path tree_fs ''00_03.0-00_01.0-00_00.0''
   \<and> list_all hop_ok [(''03'', ''00'', ''0'')]
   \<and> ''0000_03'' \<notin> set (root_buses_us tree_fs)
   \<and> \<not> is_pci_path tree_fs ''03_00.0''"
proof -
  have a: "[(''00'', ''03'', ''0''), (''00'', ''01'', ''0''), (''00'', ''00'', ''0'')] \<noteq> []"
    by simp
  have b: "list_all hop_ok [(''00'', ''03'', ''0''), (''00'', ''01'', ''0''), (''00'', ''00'', ''0'')]"
    by code_simp
  have c: "segment_ok None" by (simp add: segment_ok_def)
  have d: "list_all plain_name (root_buses_us tree_fs)" by code_simp
  have e: "''0000_00'' \<in> set (root_buses_us tree_fs)" by code_simp
  have a': "[(''03'', ''00'', ''0'')] \<noteq> []" by simp
  have b': "list_all hop_ok [(''03'', ''00'', ''0'')]" by code_simp
  have e': "''0000_03'' \<notin> set (root_buses_us tree_fs)" by code_simp
  have p1: "segment_prefix None
              @ py_join ''-'' (map hop_text [(''00'', ''03'', ''0''), (''00'', ''01'', ''0''), (''00'', ''00'', ''0'')])
            = ''00_03.0-00_01.0-00_00.0''"
    by (simp add: segment_prefix_def hop_text_def)
  have p2: "segment_prefix None @ py_join ''-'' (map hop_text [(''03'', ''00'', ''0'')]) = ''03_00.0''"
    by (simp add: segment_prefix_def hop_text_def)
  have t1: "segment_or_default None @ ''_''
              @ fst (hd [(''00'', ''03'', ''0''), (''00'', ''01'', ''0''), (''00'', ''00'', ''0'')]) = ''0000_00''"
    by (simp add: segment_or_default_def)
  have t2: "segment_or_default None @ ''_'' @ fst (hd [(''03'', ''00'', ''0'')]) = ''0000_03''"
    by (simp add: segment_or_default_def)
  from is_pci_path_iff_root_bus [OF a b c d] e have r1: "is_pci_path tree_fs ''00_03.0-00_01.0-00_00.0''"
    unfolding p1 t1 by simp
  from is_pci_path_iff_root_bus [OF a' b' c d] e' have r2: "\<not> is_pci_path tree_fs ''03_00.0''"
    unfolding p2 t2 by simp
  show ?thesis using a b c d e b' e' r1 r2 by simp
qed

section \<open>Hexadecimal text\<close>

declare hex_of_nat.simps [simp del]

lemma hexchar_table:
  "list_all (\<lambda>k. hexdigit (hexchar k) \<and> digit_val (hexchar k) = k) [0..<16]"
  by code_simp

lemma hexchar_props:
  assumes "k < 16"
  shows "hexdigit (hexchar k)" "digit_val (hexchar k) = k"
proof -
  have "k \<in> set [0..<16]" using assms by simp
  with hexchar_table have "hexdigit (hexchar k) \<and> digit_val (hexchar k) = k"
    unfolding list_all_iff by blast
  then show "hexdigit (hexchar k)" "digit_val (hexchar k) = k" by simp_all
qed

lemma hexdigit_table:
  "list_all (\<lambda>c. digit_val c < 16 \<and> hexchar (digit_val c) = c) ''0123456789abcdef''"
  by code_simp

lemma hexdigit_props:
  assumes "hexdigit c"
  shows "digit_val c < 16" "hexchar (digit_val c) = c"
proof -
  from assms have "c \<in> set ''0123456789abcdef''" unfolding hexdigit_def .
  with hexdigit_table have "digit_val c < 16 \<and> hexchar (digit_val c) = c"
    unfolding list_all_iff by blast
  then show "digit_val c < 16" "hexchar (digit_val c) = c" by simp_all
qed

lemma hex_of_nat_small: "n < 16 \<Longrightarrow> hex_of_nat n = [hexchar n]"
  by (subst hex_of_nat.simps) (simp add: hexchar_def)

lemma format_02x_byte:
  assumes "n < 256"
  shows "format_02x (int n) = [hexchar (n div 16), hexchar (n mod 16)]"
proof (cases "n < 16")
  case True
  then have "hexchar (n div 16) = CHR ''0''" by (simp add: hexchar_def)
  with True show ?thesis by (simp add: format_02x_def hex_of_nat_small)
next
  case False
  from assms have d: "n div 16 < 16" by simp
  have "hex_of_nat n = hex_of_nat (n div 16) @ [hexchar (n mod 16)]"
    using False by (subst hex_of_nat.simps) (simp add: hexchar_def)
  with False d show ?thesis by (simp add: format_02x_def hex_of_nat_small)
qed

lemma hexval_pair: "hexval [a, b] = 16 * digit_val a + digit_val b"
  by (simp add: hexval_def)

lemma hexval_format_02x: "n < 256 \<Longrightarrow> hexval (format_02x (int n)) = n"
proof -
  assume n: "n < 256"
  then have "n div 16 < 16" "n mod 16 < 16" by simp_all
  then show ?thesis
    by (simp add: format_02x_byte [OF n] hexval_pair hexchar_props(2))
qed

lemma format_02x_hexval:
  assumes "hexdigit a" "hexdigit b"
  shows "format_02x (int (hexval [a, b])) = [a, b]" "hexval [a, b] < 256"
proof -
  define n where "n = hexval [a, b]"
  from assms have bnd: "digit_val a < 16" "digit_val b < 16" by (simp_all add: hexdigit_props(1))
  have n: "n = 16 * digit_val a + digit_val b" by (simp add: n_def hexval_pair)
  with bnd have lt: "n < 256" by simp
  from n bnd have dm: "n div 16 = digit_val a" "n mod 16 = digit_val b" by simp_all
  have "format_02x (int n) = [hexchar (digit_val a), hexchar (digit_val b)]"
    using format_02x_byte [OF lt] dm by simp
  then have "format_02x (int n) = [a, b]"
    using assms by (simp add: hexdigit_props(2))
  then show "format_02x (int (hexval [a, b])) = [a, b]" by (simp add: n_def)
  from lt show "hexval [a, b] < 256" by (simp add: n_def)
qed

lemma format_02x_digits:
  assumes "n < 256"
  obtains x y where "format_02x (int n) = [x, y]" "hexdigit x" "hexdigit y"
proof -
  from assms have "n div 16 < 16" "n mod 16 < 16" by simp_all
  then have "hexdigit (hexchar (n div 16))" "hexdigit (hexchar (n mod 16))"
    by (simp_all add: hexchar_props(1))
  with format_02x_byte [OF assms] that show ?thesis by blast
qed

lemma format_02x_zero: "format_02x 0 = ''00''"
  by code_simp

section \<open>Matching and splitting formatted text\<close>

lemma hexdigit_not_p: "hexdigit c \<Longrightarrow> c \<noteq> CHR ''p''"
  by (auto simp add: hexdigit_def)

lemma not_hexdigit_seps [simp]:
  "\<not> hexdigit CHR ''_''" "\<not> hexdigit CHR '':''" "\<not> hexdigit CHR ''.''"
  by (simp_all add: hexdigit_def)

lemma sbdf_regex_canonical:
  assumes "hexdigit s1" "hexdigit s2" "hexdigit s3" "hexdigit s4"
    "hexdigit x" "hexdigit y" "hexdigit d1" "hexdigit d2" "hexdigit f1"
  shows "sbdf_regex [s1, s2, s3, s4, CHR '':'', x, y, CHR '':'', d1, d2, CHR ''.'', f1]
         = Some (Some [s1, s2, s3, s4], [x, y], [d1, d2], [f1])"
  using assms hexdigit_not_p [OF assms(1)]
  by (simp add: sbdf_regex_def numeral_eq_Suc)

lemma path_regex_hop:
  assumes "hexdigit x" "hexdigit y" "hexdigit d1" "hexdigit d2" "hexdigit f1"
  shows "path_regex [x, y, CHR ''_'', d1, d2, CHR ''.'', f1] = Some ([x, y], [d1, d2], [f1])"
  using assms by (simp add: path_regex_def hex_triple_regex_def)

lemma segment_re_hop:
  "segment_re [x, y, CHR ''_'', d1, d2, CHR ''.'', f1] = None"
  by (simp add: segment_re_def numeral_eq_Suc)

lemma segment_re_prefixed:
  assumes "hexdigit s1" "hexdigit s2" "hexdigit s3" "hexdigit s4" "CHR 0x0A \<notin> set r"
  shows "segment_re (s1 # s2 # s3 # s4 # CHR ''_'' # r) = Some ([s1, s2, s3, s4], r)"
  using assms by (simp add: segment_re_def numeral_eq_Suc)

lemma py_split_no_sep: "c \<notin> set a \<Longrightarrow> py_split c a = [a]"
  by (induction a) auto

lemma py_split_at_sep: "c \<notin> set a \<Longrightarrow> py_split c (a @ c # b) = a # py_split c b"
  by (induction a) auto

lemma py_split_join:
  assumes "parts \<noteq> []" "\<forall>p \<in> set parts. c \<notin> set p"
  shows "py_split c (py_join [c] parts) = parts"
  using assms
proof (induction "[c]" parts rule: py_join.induct)
  case 1
  then show ?case by simp
next
  case (2 p)
  then show ?case by (simp add: py_split_no_sep)
next
  case (3 p q ps)
  then show ?case by (simp add: py_split_at_sep)
qed

lemma startswith_append [simp]: "startswith p (p @ s)"
  by (simp add: startswith_def)

lemma find_sep_link:
  "find_sep (''/pci'' @ segment @ '':'') (''../../../devices'' @ (''/pci'' @ segment @ '':'') @ r)
   = Some (''../../../devices'', r)"
proof -
  have "startswith (''/pci'' @ segment @ '':'') ((''/pci'' @ segment @ '':'') @ r)"
    by (rule startswith_append)
  then show ?thesis by simp
qed

lemma py_partition_link:
  "py_partition (''/pci'' @ segment @ '':'') (''../../../devices/pci'' @ segment @ '':'' @ r)
   = (''../../../devices'', ''/pci'' @ segment @ '':'', r)"
  using find_sep_link [of segment r] by (simp add: py_partition_def)

lemma normpath_rel_links:
  "normpath (path_join sysfs_pci_devs_base ''../../../devices'') = normpath (SYSFS_BASE @ ''/devices'')"
  by code_simp

lemma secondary_file_name:
  "sysfs_pci_devs_base @ ''/'' @ dev @ ''/secondary_bus_number'' = secondary_bus_number_file dev"
  by (simp add: sysfs_pci_devs_base_def secondary_bus_number_file_def)

section \<open>One round of each loop on a hop of a chain\<close>

lemma slot_okE:
  assumes "slot_ok h"
  obtains n d1 d2 f1 where "h = (n, [d1, d2], [f1])" "n < 256"
    "hexdigit d1" "hexdigit d2" "hexdigit f1"
proof -
  obtain n d f where h: "h = (n, d, f)" by (cases h)
  with assms have "n < 256" "hex2 d" "hex1 f" by (simp_all add: slot_ok_def)
  then show ?thesis using h that by (elim hex2E hex1E) simp
qed

text \<open>Numbers of any size in hexadecimal.\<close>

lemma hexval_snoc: "hexval (xs @ [c]) = 16 * hexval xs + digit_val c"
  by (simp add: hexval_def)

lemma hex_of_nat_props:
  "list_all hexdigit (hex_of_nat m) \<and> hex_of_nat m \<noteq> [] \<and> hexval (hex_of_nat m) = m"
proof (induction m rule: hex_of_nat.induct)
  case (1 n)
  show ?case
  proof (cases "n < 16")
    case True
    then have "hex_of_nat n = [hexchar n]" by (rule hex_of_nat_small)
    moreover have "hexval [hexchar n] = n"
      using hexchar_props(2) [OF True] by (simp add: hexval_def)
    ultimately show ?thesis using hexchar_props(1) [OF True] by simp
  next
    case False
    have m: "n mod 16 < 16" by simp
    have e: "hex_of_nat n = hex_of_nat (n div 16) @ [hexchar (n mod 16)]"
      using False by (subst hex_of_nat.simps) (simp add: hexchar_def)
    from "1.IH" [OF False] have ih: "list_all hexdigit (hex_of_nat (n div 16))"
      "hexval (hex_of_nat (n div 16)) = n div 16"
      by simp_all
    have "hexval (hex_of_nat n) = 16 * (n div 16) + n mod 16"
      unfolding e hexval_snoc using ih(2) hexchar_props(2) [OF m] by simp
    then have "hexval (hex_of_nat n) = n" by simp
    moreover have "list_all hexdigit (hex_of_nat n)"
      unfolding e using ih(1) hexchar_props(1) [OF m] by simp
    moreover have "hex_of_nat n \<noteq> []" unfolding e by simp
    ultimately show ?thesis by simp
  qed
qed

lemma format_02x_props:
  "list_all hexdigit (format_02x (int m)) \<and> format_02x (int m) \<noteq> []
   \<and> hexval (format_02x (int m)) = m"
proof (cases "m < 256")
  case True
  then obtain x y where "format_02x (int m) = [x, y]" "hexdigit x" "hexdigit y"
    by (rule format_02x_digits)
  with hexval_format_02x [OF True] show ?thesis by simp
next
  case False
  then have "format_02x (int m) = hex_of_nat m" by (simp add: format_02x_def)
  with hex_of_nat_props [of m] show ?thesis by simp
qed

text \<open>The bus field of a hop, written relative to an offset.\<close>

lemma relative_bus:
  assumes hi: "off \<le> int n"
  obtains u where "format_02x (int n - off) = u" "u \<noteq> []" "list_all hexdigit u"
    "int (hexval u) + off = int n"
proof -
  define m where "m = nat (int n - off)"
  from hi have m1: "int m = int n - off" by (simp add: m_def)
  from format_02x_props [of m] m1 have "format_02x (int n - off) \<noteq> []"
    "list_all hexdigit (format_02x (int n - off))" "int (hexval (format_02x (int n - off))) + off = int n"
    by simp_all
  then show ?thesis using that by blast
qed

lemma span_hex:
  assumes "list_all hexdigit u" "\<not> hexdigit c"
  shows "takeWhile hexdigit (u @ c # r) = u" "dropWhile hexdigit (u @ c # r) = c # r"
  using assms by (induction u) simp_all

lemma path_regex_field:
  assumes u: "u \<noteq> []" "list_all hexdigit u"
    and hd: "hexdigit d1" "hexdigit d2" "hexdigit f1"
  shows "path_regex (u @ [CHR ''_'', d1, d2, CHR ''.'', f1]) = Some (u, [d1, d2], [f1])"
proof -
  have t: "takeWhile hexdigit (u @ CHR ''_'' # [d1, d2, CHR ''.'', f1]) = u"
    and d: "dropWhile hexdigit (u @ CHR ''_'' # [d1, d2, CHR ''.'', f1]) = CHR ''_'' # [d1, d2, CHR ''.'', f1]"
    using u(2) by (simp_all only: span_hex not_hexdigit_seps not_False_eq_True)
  show ?thesis
    unfolding path_regex_def hex_triple_regex_def
    by (simp only: t d Let_def) (simp add: u hd)
qed

lemma hex_no_dash:
  assumes "list_all hexdigit u"
  shows "CHR ''-'' \<notin> set u"
  using assms hexdigit_not_sep by (auto simp add: list_all_iff)

lemma sbdf_loop_step:
  assumes sg: "hex4 segment" and ok: "slot_ok h" and ne: "off \<noteq> -1" and hi: "off \<le> int (fst h)"
    and rd: "secondary_of fs segment h = Inr v"
  shows "sbdf_loop fs (live_address segment h # rest) off acc =
           sbdf_loop fs rest v
             (acc @ [format_02x (int (fst h) - off) @ ''_'' @ fst (snd h) @ ''.'' @ snd (snd h)])"
proof -
  from ok obtain n d1 d2 f1 where h: "h = (n, [d1, d2], [f1])" and n: "n < 256"
    and hd: "hexdigit d1" "hexdigit d2" "hexdigit f1"
    by (rule slot_okE)
  from sg obtain s1 s2 s3 s4 where s: "segment = [s1, s2, s3, s4]"
    and hs: "hexdigit s1" "hexdigit s2" "hexdigit s3" "hexdigit s4"
    by (rule hex4E)
  from n obtain x y where xy: "format_02x (int n) = [x, y]" and hxy: "hexdigit x" "hexdigit y"
    by (rule format_02x_digits)
  have vx: "hexval [x, y] = n" using hexval_format_02x [OF n] xy by simp
  have la: "live_address segment h = [s1, s2, s3, s4, CHR '':'', x, y, CHR '':'', d1, d2, CHR ''.'', f1]"
    by (simp add: live_address_def h s xy)
  have rx: "sbdf_regex (live_address segment h) = Some (Some [s1, s2, s3, s4], [x, y], [d1, d2], [f1])"
    unfolding la using hs hxy hd by (rule sbdf_regex_canonical)
  have rd': "read_secondary fs
               (sysfs_pci_devs_base @ ''/'' @ live_address segment h @ ''/secondary_bus_number'')
             = Inr v"
    using rd by (simp only: secondary_file_name secondary_of_def)
  from hi have n2: "off \<le> int n" by (simp add: h)
  have "sbdf_loop fs (live_address segment h # rest) off acc =
          sbdf_loop fs rest v (acc @ [format_02x (int n - off) @ ''_'' @ [d1, d2] @ ''.'' @ [f1]])"
    apply (subst sbdf_loop.simps)
    apply (simp only: rx rd' ne if_False option.case prod.case vx n2 not_not Let_def sum.case)
    apply simp
    done
  then show ?thesis by (simp add: h)
qed

lemma path_step_hop:
  assumes sg: "hex4 segment" and ok: "slot_ok h" and ne: "off \<noteq> -1" and hi: "off \<le> int (fst h)"
    and rd: "secondary_of fs segment h = Inr v"
  shows "path_step fs (format_02x (int (fst h) - off) @ ''_'' @ fst (snd h) @ ''.'' @ snd (snd h))
           (segment, off, cur) = Inr (segment, v, live_address segment h)"
proof -
  from ok obtain n d1 d2 f1 where h: "h = (n, [d1, d2], [f1])" and n: "n < 256"
    and hd: "hexdigit d1" "hexdigit d2" "hexdigit f1"
    by (rule slot_okE)
  from hi have hi': "off \<le> int n" by (simp add: h)
  from hi' obtain u where uw: "format_02x (int n - off) = u"
    and une: "u \<noteq> []" and hu: "list_all hexdigit u" and bk: "int (hexval u) + off = int n"
    by (rule relative_bus)
  have la: "live_address segment h = segment @ '':'' @ format_02x (int n) @ '':'' @ [d1, d2] @ ''.'' @ [f1]"
    by (simp add: live_address_def h)
  have part: "format_02x (int (fst h) - off) @ ''_'' @ fst (snd h) @ ''.'' @ snd (snd h)
              = u @ [CHR ''_'', d1, d2, CHR ''.'', f1]"
    by (simp add: h uw)
  have pr: "path_regex (u @ [CHR ''_'', d1, d2, CHR ''.'', f1]) = Some (u, [d1, d2], [f1])"
    using une hu hd by (rule path_regex_field)
  have ha: "hop_address segment off (u @ [CHR ''_'', d1, d2, CHR ''.'', f1])
            = Some (segment, live_address segment h)"
  proof (cases "off = 0")
    case True
    from n obtain x y where "format_02x (int n) = [x, y]"
      by (rule format_02x_digits)
    with True uw have xy: "u = [x, y]" by simp
    from True bk have "int (hexval u) = int n" by simp
    moreover have "segment_re (u @ [CHR ''_'', d1, d2, CHR ''.'', f1]) = None"
      unfolding xy using segment_re_hop [of x y d1 d2 f1] by simp
    ultimately show ?thesis using True by (simp add: hop_address_def pr la)
  next
    case False
    then show ?thesis by (simp add: hop_address_def pr bk la)
  qed
  have rd': "read_secondary fs (secondary_bus_number_file (live_address segment h)) = Inr v"
    using rd by (simp only: secondary_of_def)
  show ?thesis
    unfolding part by (simp add: path_step_def ne ha rd')
qed

lemma path_step_first_prefixed:
  assumes sg: "hex4 segment" and ok: "slot_ok h"
    and rd: "secondary_of fs segment h = Inr v"
  shows "path_step fs (segment @ ''_'' @ format_02x (int (fst h) - 0) @ ''_'' @ fst (snd h) @ ''.'' @ snd (snd h))
           (''0000'', 0, cur)
         = Inr (segment, v, live_address segment h)"
proof -
  from ok obtain n d1 d2 f1 where h: "h = (n, [d1, d2], [f1])" and n: "n < 256"
    and hd: "hexdigit d1" "hexdigit d2" "hexdigit f1"
    by (rule slot_okE)
  from sg obtain s1 s2 s3 s4 where s: "segment = [s1, s2, s3, s4]"
    and hs: "hexdigit s1" "hexdigit s2" "hexdigit s3" "hexdigit s4"
    by (rule hex4E)
  from n obtain x y where xy: "format_02x (int n) = [x, y]" and hxy: "hexdigit x" "hexdigit y"
    by (rule format_02x_digits)
  have vx: "hexval [x, y] = n" using hexval_format_02x [OF n] xy by simp
  have la: "live_address segment h = segment @ '':'' @ [x, y] @ '':'' @ [d1, d2] @ ''.'' @ [f1]"
    by (simp add: live_address_def h xy)
  have part: "segment @ ''_'' @ format_02x (int (fst h) - 0) @ ''_'' @ fst (snd h) @ ''.'' @ snd (snd h)
              = s1 # s2 # s3 # s4 # CHR ''_'' # [x, y, CHR ''_'', d1, d2, CHR ''.'', f1]"
    by (simp add: h s xy)
  have nl: "CHR 0x0A \<notin> set [x, y, CHR ''_'', d1, d2, CHR ''.'', f1]"
    using hxy [THEN hexdigit_not_sep] hd [THEN hexdigit_not_sep] by auto
  have sr: "segment_re (s1 # s2 # s3 # s4 # CHR ''_'' # [x, y, CHR ''_'', d1, d2, CHR ''.'', f1])
            = Some (segment, [x, y, CHR ''_'', d1, d2, CHR ''.'', f1])"
    unfolding s using hs nl by (rule segment_re_prefixed)
  have pr: "path_regex [x, y, CHR ''_'', d1, d2, CHR ''.'', f1] = Some ([x, y], [d1, d2], [f1])"
    using hxy hd by (rule path_regex_hop)
  have ha: "hop_address ''0000'' 0 (s1 # s2 # s3 # s4 # CHR ''_'' # [x, y, CHR ''_'', d1, d2, CHR ''.'', f1])
            = Some (segment, live_address segment h)"
    by (simp add: hop_address_def sr pr vx la xy)
  have rd': "read_secondary fs (secondary_bus_number_file (live_address segment h)) = Inr v"
    using rd by (simp only: secondary_of_def)
  show ?thesis
    unfolding part by (simp add: path_step_def ha rd')
qed

section \<open>Both loops along a numbered chain\<close>

lemma chain_numbered_head:
  assumes "chain_numbered fs segment (hv # r)"
  shows "slot_ok (fst hv)" "secondary_of fs segment (fst hv) = Inr (snd hv)"
  using assms by (cases r; simp)+

lemma chain_numbered_next:
  assumes "chain_numbered fs segment (hv # hv' # r)"
  shows "snd hv \<noteq> -1" "snd hv \<le> int (fst (fst hv'))" "chain_numbered fs segment (hv' # r)"
  using assms by simp_all

lemma chain_numbered_last:
  "chain_numbered fs segment chain \<Longrightarrow> chain_numbered fs segment [last chain]"
  by (induction fs segment chain rule: chain_numbered.induct) simp_all

lemma chain_numbered_slots:
  "chain_numbered fs segment chain \<Longrightarrow> list_all (\<lambda>hv. slot_ok (fst hv)) chain"
  by (induction fs segment chain rule: chain_numbered.induct) simp_all

lemma slots_simps [simp]: "slots [] = []" "slots (hv # r) = snd (fst hv) # slots r"
  by (simp_all add: slots_def)

lemma path_hops_simps [simp]:
  "path_hops [] sl = []" "path_hops rels [] = []"
  "path_hops (rel # rels) (s # sl) = (format_02x rel @ ''_'' @ fst s @ ''.'' @ snd s) # path_hops rels sl"
  by (simp_all add: path_hops_def)

text \<open>The encoding loop along a chain, from any offset that the first hop admits.\<close>

lemma sbdf_loop_chain:
  assumes "hex4 segment" "chain_numbered fs segment (hv # r)" "off \<noteq> -1"
    "off \<le> int (fst (fst hv))"
  shows "sbdf_loop fs (map (\<lambda>hv. live_address segment (fst hv)) (hv # r)) off acc
         = Inr (acc @ path_hops (relative_buses off (hv # r)) (slots (hv # r)))"
  using assms
proof (induction r arbitrary: hv off acc)
  case Nil
  from chain_numbered_head [OF Nil.prems(2)]
  have ok: "slot_ok (fst hv)" and rd: "secondary_of fs segment (fst hv) = Inr (snd hv)" .
  show ?case
    using sbdf_loop_step [OF Nil.prems(1) ok Nil.prems(3,4) rd, of "[]" acc]
    by simp
next
  case (Cons hv' r)
  from chain_numbered_head [OF Cons.prems(2)]
  have ok: "slot_ok (fst hv)" and rd: "secondary_of fs segment (fst hv) = Inr (snd hv)" .
  from chain_numbered_next [OF Cons.prems(2)]
  have ne: "snd hv \<noteq> -1" and le: "snd hv \<le> int (fst (fst hv'))"
    and ch: "chain_numbered fs segment (hv' # r)" .
  let ?t = "format_02x (int (fst (fst hv)) - off) @ ''_'' @ fst (snd (fst hv)) @ ''.'' @ snd (snd (fst hv))"
  have "sbdf_loop fs (map (\<lambda>hv. live_address segment (fst hv)) (hv # hv' # r)) off acc
        = sbdf_loop fs (map (\<lambda>hv. live_address segment (fst hv)) (hv' # r)) (snd hv) (acc @ [?t])"
    using sbdf_loop_step [OF Cons.prems(1) ok Cons.prems(3,4) rd] by simp
  also have "\<dots> = Inr ((acc @ [?t]) @ path_hops (relative_buses (snd hv) (hv' # r)) (slots (hv' # r)))"
    using Cons.prems(1) ch ne le by (rule Cons.IH)
  finally show ?case by simp
qed

text \<open>The decoding loop along the path of a chain.\<close>

lemma path_loop_chain:
  assumes "hex4 segment" "chain_numbered fs segment (hv # r)" "off \<noteq> -1"
    "off \<le> int (fst (fst hv))"
  shows "path_loop fs (path_hops (relative_buses off (hv # r)) (slots (hv # r))) (segment, off, cur)
         = Inr (segment, snd (last (hv # r)), live_address segment (target (hv # r)))"
  using assms
proof (induction r arbitrary: hv off cur)
  case Nil
  from chain_numbered_head [OF Nil.prems(2)]
  have ok: "slot_ok (fst hv)" and rd: "secondary_of fs segment (fst hv) = Inr (snd hv)" .
  show ?case
    using path_step_hop [OF Nil.prems(1) ok Nil.prems(3,4) rd, of cur]
    by (simp add: target_def)
next
  case (Cons hv' r)
  from chain_numbered_head [OF Cons.prems(2)]
  have ok: "slot_ok (fst hv)" and rd: "secondary_of fs segment (fst hv) = Inr (snd hv)" .
  from chain_numbered_next [OF Cons.prems(2)]
  have ne: "snd hv \<noteq> -1" and le: "snd hv \<le> int (fst (fst hv'))"
    and ch: "chain_numbered fs segment (hv' # r)" .
  have st: "path_step fs
              (format_02x (int (fst (fst hv)) - off) @ ''_'' @ fst (snd (fst hv)) @ ''.'' @ snd (snd (fst hv)))
              (segment, off, cur) = Inr (segment, snd hv, live_address segment (fst hv))"
    using Cons.prems(1) ok Cons.prems(3,4) rd by (rule path_step_hop)
  have ih: "path_loop fs (path_hops (relative_buses (snd hv) (hv' # r)) (slots (hv' # r)))
              (segment, snd hv, live_address segment (fst hv))
            = Inr (segment, snd (last (hv' # r)), live_address segment (target (hv' # r)))"
    using Cons.prems(1) ch ne le by (rule Cons.IH)
  show ?case
    using st ih by (simp add: target_def)
qed

lemma path_loop_rest:
  assumes sg: "hex4 segment" and ch: "chain_numbered fs segment (hv # r)"
  shows "path_loop fs (path_hops (relative_buses (snd hv) r) (slots r))
           (segment, snd hv, live_address segment (fst hv))
         = Inr (segment, snd (last (hv # r)), live_address segment (target (hv # r)))"
proof (cases r)
  case Nil
  then show ?thesis by (simp add: target_def)
next
  case (Cons hv' r')
  from chain_numbered_next [OF ch [unfolded Cons]]
  have ne: "snd hv \<noteq> -1" and le: "snd hv \<le> int (fst (fst hv'))"
    and ch': "chain_numbered fs segment (hv' # r')" .
  from path_loop_chain [OF sg ch' ne le] show ?thesis by (simp add: Cons target_def)
qed

section \<open>Decoding the path of a chain\<close>

lemma py_join_prefix: "p @ py_join sep (x # xs) = py_join sep ((p @ x) # xs)"
  by (cases xs) simp_all

lemma hexdigit_not_dash: "hexdigit c \<Longrightarrow> c \<noteq> CHR ''-''"
  by (simp add: hexdigit_not_sep)

lemma hexdigit_not_slash: "hexdigit c \<Longrightarrow> c \<noteq> CHR ''/''"
  by (simp add: hexdigit_not_sep)

lemma hop_text_no_dash:
  assumes ok: "slot_ok h" and hi: "off \<le> int (fst h)"
  shows "CHR ''-'' \<notin> set (format_02x (int (fst h) - off))"
    "CHR ''-'' \<notin> set (fst (snd h))" "CHR ''-'' \<notin> set (snd (snd h))"
proof -
  from ok obtain n d1 d2 f1 where h: "h = (n, [d1, d2], [f1])"
    and hd: "hexdigit d1" "hexdigit d2" "hexdigit f1"
    by (rule slot_okE)
  from hi obtain u where u: "format_02x (int (fst h) - off) = u" and hu: "list_all hexdigit u"
    by (rule relative_bus)
  show "CHR ''-'' \<notin> set (format_02x (int (fst h) - off))"
    unfolding u using hu by (rule hex_no_dash)
  show "CHR ''-'' \<notin> set (fst (snd h))" "CHR ''-'' \<notin> set (snd (snd h))"
    using hd [THEN hexdigit_not_dash] by (auto simp add: h)
qed

lemma path_hops_no_dash:
  assumes "chain_numbered fs segment (hv # r)" "off \<le> int (fst (fst hv))"
  shows "\<forall>p \<in> set (path_hops (relative_buses off (hv # r)) (slots (hv # r))). CHR ''-'' \<notin> set p"
  using assms
proof (induction r arbitrary: hv off)
  case Nil
  from chain_numbered_head(1) [OF Nil.prems(1)] Nil.prems(2)
  show ?case by (simp add: hop_text_no_dash)
next
  case (Cons hv' r)
  from chain_numbered_next(2,3) [OF Cons.prems(1)]
  have le: "snd hv \<le> int (fst (fst hv'))" and ch: "chain_numbered fs segment (hv' # r)" .
  from Cons.IH [OF ch le] chain_numbered_head(1) [OF Cons.prems(1)] Cons.prems(2)
  show ?case by (simp add: hop_text_no_dash)
qed

lemma segment_no_dash:
  assumes "hex4 segment"
  shows "CHR ''-'' \<notin> set segment"
proof -
  from assms obtain s1 s2 s3 s4 where s: "segment = [s1, s2, s3, s4]"
    and hs: "hexdigit s1" "hexdigit s2" "hexdigit s3" "hexdigit s4"
    by (rule hex4E)
  show ?thesis using hs [THEN hexdigit_not_dash] by (auto simp add: s)
qed

lemma live_address_no_slash:
  assumes sg: "hex4 segment" and ok: "slot_ok h"
  shows "CHR ''/'' \<notin> set (live_address segment h)"
proof -
  from ok obtain n d1 d2 f1 where h: "h = (n, [d1, d2], [f1])" and n: "n < 256"
    and hd: "hexdigit d1" "hexdigit d2" "hexdigit f1"
    by (rule slot_okE)
  from sg obtain s1 s2 s3 s4 where s: "segment = [s1, s2, s3, s4]"
    and hs: "hexdigit s1" "hexdigit s2" "hexdigit s3" "hexdigit s4"
    by (rule hex4E)
  from n obtain x y where xy: "format_02x (int n) = [x, y]" and hxy: "hexdigit x" "hexdigit y"
    by (rule format_02x_digits)
  show ?thesis
    using hd [THEN hexdigit_not_slash] hxy [THEN hexdigit_not_slash] hs [THEN hexdigit_not_slash]
    by (auto simp add: live_address_def h s xy)
qed

text \<open>Decoding the path of a numbered chain gives the live address of its last device.\<close>

lemma path_to_sbdf_path_text:
  assumes sg: "hex4 segment" and ch: "chain_numbered fs segment chain"
  shows "path_to_sbdf fs (path_text segment (relative_buses 0 chain) (slots chain))
         = Inr (live_address segment (target chain))"
proof -
  from ch obtain hv r where chain: "chain = hv # r" by (cases chain) auto
  note ch' = ch [unfolded chain]
  from chain_numbered_head [OF ch']
  have ok: "slot_ok (fst hv)" and rd: "secondary_of fs segment (fst hv) = Inr (snd hv)" .
  define t1 where "t1 = format_02x (int (fst (fst hv)) - 0) @ ''_'' @ fst (snd (fst hv)) @ ''.'' @ snd (snd (fst hv))"
  define rest where "rest = path_hops (relative_buses (snd hv) r) (slots r)"
  define part where "part = (if segment = ''0000'' then [] else segment @ ''_'') @ t1"
  have hops: "path_hops (relative_buses 0 (hv # r)) (slots (hv # r)) = t1 # rest"
    by (simp add: t1_def rest_def)
  have ptxt: "path_text segment (relative_buses 0 chain) (slots chain) = py_join ''-'' (part # rest)"
    unfolding chain path_text_def hops part_def by (simp only: py_join_prefix append_assoc)
  from path_hops_no_dash [OF ch', of 0] have "\<forall>p \<in> set (t1 # rest). CHR ''-'' \<notin> set p"
    unfolding hops by simp
  then have nd: "\<forall>p \<in> set (part # rest). CHR ''-'' \<notin> set p"
    using segment_no_dash [OF sg] by (auto simp add: part_def)
  have sp: "py_split CHR ''-'' (path_text segment (relative_buses 0 chain) (slots chain)) = part # rest"
    unfolding ptxt using nd by (intro py_split_join) simp_all
  have st: "path_step fs part (''0000'', 0, []) = Inr (segment, snd hv, live_address segment (fst hv))"
  proof (cases "segment = ''0000''")
    case True
    have "path_step fs t1 (segment, 0, []) = Inr (segment, snd hv, live_address segment (fst hv))"
      unfolding t1_def by (rule path_step_hop [OF sg ok _ _ rd]) simp_all
    with True show ?thesis by (simp add: part_def)
  next
    case False
    then have "part = segment @ ''_'' @ t1" by (simp add: part_def)
    then show ?thesis unfolding t1_def using path_step_first_prefixed [OF sg ok rd] by simp
  qed
  have "path_loop fs (part # rest) (''0000'', 0, [])
        = Inr (segment, snd (last (hv # r)), live_address segment (target (hv # r)))"
    unfolding rest_def using st path_loop_rest [OF sg ch'] by simp
  then have "path_to_sbdf fs (path_text segment (relative_buses 0 chain) (slots chain))
             = Inr (live_address segment (target (hv # r)))"
    by (simp only: path_to_sbdf_def sp sum.case prod.case)
  then show ?thesis by (simp only: chain)
qed

text \<open>What a match of the identifier pattern says about its groups.\<close>

lemma bdf_groups_fields:
  assumes "bdf_groups t = Some (b, d, f)"
  shows "hex2 b \<and> hex2 d \<and> hex1 f"
  using assms by (cases t rule: bdf_groups.cases) (auto split: if_splits)

lemma take4_hex4:
  assumes "length t = 12" "list_all hexdigit (take 4 t)"
  shows "hex4 (take 4 t)"
proof -
  from assms(1) obtain a b c d r where "t = a # b # c # d # r"
    by (cases t; cases "tl t"; cases "tl (tl t)"; cases "tl (tl (tl t))") auto
  with assms(2) show ?thesis by (simp add: numeral_eq_Suc)
qed

lemma sbdf_regex_fields:
  assumes "sbdf_regex s = Some (seg, b, d, f)"
  shows "hex2 b \<and> hex2 d \<and> hex1 f \<and> segment_ok seg"
proof -
  define t where "t = (if startswith ''pci_'' s then drop 4 s else s)"
  show ?thesis
  proof (cases "length t = 12")
    case True
    with assms have g: "bdf_groups (drop 5 t) = Some (b, d, f)" and sg: "seg = Some (take 4 t)"
      and hx: "list_all hexdigit (take 4 t)"
      by (auto simp add: sbdf_regex_def t_def Let_def split: if_splits)
    from take4_hex4 [OF True hx] sg have "segment_ok seg" by (simp add: segment_ok_def)
    with bdf_groups_fields [OF g] show ?thesis by simp
  next
    case False
    with assms have g: "bdf_groups t = Some (b, d, f)" and sg: "seg = None"
      by (auto simp add: sbdf_regex_def t_def Let_def split: if_splits)
    with bdf_groups_fields [OF g] show ?thesis
      by (simp add: segment_ok_def)
  qed
qed

section \<open>Encoding the address of a device\<close>

lemma drop3_root_bus:
  assumes "length rb = 2"
  shows "drop 3 (rb @ ''/'' @ j) = j"
proof -
  from assms obtain r1 r2 where "rb = [r1, r2]"
    by (cases rb; cases "tl rb") auto
  then show ?thesis by (simp add: numeral_eq_Suc)
qed

lemma sbdf_address:
  assumes "hex2 b"
  shows "format_02x (int (hexval b)) = b" "hexval b < 256"
  using assms by (elim hex2E; simp add: format_02x_hexval)+

lemma sbdf_to_path_linked:
  assumes rx: "sbdf_regex device_id = Some (seg, b, d, f)"
      and sgd: "segment = segment_or_default seg"
      and sg: "hex4 segment"
      and ch: "chain_numbered fs segment chain"
      and lst: "target chain = (hexval b, d, f)"
      and nr: "\<not> on_root_bus fs segment (target chain)"
      and lk: "linked fs segment rb chain"
  shows "sbdf_to_path fs device_id
         = Inr (Some (path_text segment (relative_buses 0 chain) (slots chain)))"
proof -
  from sbdf_regex_fields [OF rx] have "hex2 b" by simp
  then have fb: "format_02x (int (hexval b)) = b" by (rule sbdf_address)
  have sdef: "(case seg of Some s \<Rightarrow> s | None \<Rightarrow> ''0000'') = segment"
    by (simp add: sgd segment_or_default_def split: option.splits)
  have addr: "segment @ '':'' @ b @ '':'' @ d @ ''.'' @ f = live_address segment (target chain)"
    by (simp add: live_address_def lst fb)
  have root: "segment @ '':'' @ b \<notin> set (root_buses fs)"
    using nr by (simp add: on_root_bus_def lst fb)
  from lk have rb: "length rb = 2" by (simp add: linked_def)
  have link: "readlink fs (sysfs_pci_devs_base @ ''/'' @ segment @ '':'' @ b @ '':'' @ d @ ''.'' @ f)
               = Inr (sysfs_link segment rb chain)"
    unfolding addr using lk by (simp add: linked_def)
  define j where "j = py_join ''/'' (map (\<lambda>hv. live_address segment (fst hv)) chain)"
  have part: "py_partition (''/pci'' @ segment @ '':'') (sysfs_link segment rb chain)
              = (''../../../devices'', ''/pci'' @ segment @ '':'', rb @ ''/'' @ j)"
    unfolding sysfs_link_def j_def by (rule py_partition_link)
  from ch obtain hv r where chain: "chain = hv # r" by (cases chain) auto
  have ns: "\<forall>p \<in> set (map (\<lambda>hv. live_address segment (fst hv)) chain). CHR ''/'' \<notin> set p"
    using chain_numbered_slots [OF ch] live_address_no_slash [OF sg]
    by (auto simp add: list_all_iff)
  have sp: "py_split CHR ''/'' (drop 3 (rb @ ''/'' @ j)) = map (\<lambda>hv. live_address segment (fst hv)) chain"
    unfolding drop3_root_bus [OF rb] j_def using chain ns by (intro py_split_join) simp_all
  have "sbdf_loop fs (map (\<lambda>hv. live_address segment (fst hv)) (hv # r)) 0 []
        = Inr ([] @ path_hops (relative_buses 0 (hv # r)) (slots (hv # r)))"
    by (rule sbdf_loop_chain [OF sg ch [unfolded chain]]) simp_all
  then have lp: "sbdf_loop fs (py_split CHR ''/'' (drop 3 (rb @ ''/'' @ j))) 0 []
             = Inr (path_hops (relative_buses 0 chain) (slots chain))"
    unfolding sp chain by (simp only: append_Nil)
  show ?thesis
    unfolding sbdf_to_path_def
    by (simp only: rx option.case prod.case sdef Let_def root if_False link sum.case part
        normpath_rel_links not_not refl lp path_text_def if_True)
      (simp add: path_text_def)
qed

lemma sbdf_to_path_on_root_bus:
  assumes rx: "sbdf_regex device_id = Some (seg, b, d, f)"
      and sgd: "segment = segment_or_default seg"
      and root: "on_root_bus fs segment (hexval b, d, f)"
  shows "sbdf_to_path fs device_id
         = Inr (Some (path_text segment (relative_buses 0 [((hexval b, d, f), v)])
                                        (slots [((hexval b, d, f), v)])))"
proof -
  from sbdf_regex_fields [OF rx] have "hex2 b" by simp
  then have fb: "format_02x (int (hexval b)) = b" by (rule sbdf_address)
  have sdef: "(case seg of Some s \<Rightarrow> s | None \<Rightarrow> ''0000'') = segment"
    by (simp add: sgd segment_or_default_def split: option.splits)
  have r: "segment @ '':'' @ b \<in> set (root_buses fs)"
    using root by (simp add: on_root_bus_def fb)
  show ?thesis
    unfolding sbdf_to_path_def
    by (simp only: rx option.case prod.case sdef Let_def r if_True)
      (simp add: path_text_def fb)
qed

section \<open>Round trip and stability of the codec\<close>



text \<open>
  C1 (round trip of the topology codec). The identifier is accepted in any of its forms
  and names the last device of a chain that the host shows as reachable: on a root bus, or
  linked under \<open>/sys/bus/pci/devices\<close> through bridges, each with a secondary bus number
  at or below the bus of the next hop. Then \<open>sbdf_to_path\<close> returns a path, and
  \<open>path_to_sbdf\<close> on that path, against the same tree, returns the address
  \<open>segment:bus:device.function\<close> of the identifier.
\<close>

theorem topology_codec_roundtrip:
  assumes rx: "sbdf_regex device_id = Some (seg, b, d, f)"
      and re: "reachable fs (segment_or_default seg) rb chain"
      and lst: "target chain = (hexval b, d, f)"
  shows "\<exists>p. sbdf_to_path fs device_id = Inr (Some p)
             \<and> path_to_sbdf fs p = Inr (segment_or_default seg @ '':'' @ b @ '':'' @ d @ ''.'' @ f)"
proof -
  define segment where "segment = segment_or_default seg"
  from re have sg: "hex4 segment" and ch: "chain_numbered fs segment chain"
    and rl: "on_root_bus fs segment (target chain) \<or> linked fs segment rb chain"
    by (simp_all add: reachable_def segment_def)
  from sbdf_regex_fields [OF rx] have "hex2 b" by simp
  then have fb: "format_02x (int (hexval b)) = b" by (rule sbdf_address)
  have addr: "live_address segment (target chain) = segment @ '':'' @ b @ '':'' @ d @ ''.'' @ f"
    by (simp add: live_address_def lst fb)
  show ?thesis
  proof (cases "on_root_bus fs segment (target chain)")
    case True
    define v where "v = snd (last chain)"
    have l: "last chain = ((hexval b, d, f), v)"
      using lst by (simp add: target_def v_def prod_eq_iff)
    from True have "on_root_bus fs segment (hexval b, d, f)" by (simp add: lst)
    with rx segment_def
    have enc: "sbdf_to_path fs device_id
               = Inr (Some (path_text segment (relative_buses 0 [((hexval b, d, f), v)])
                                              (slots [((hexval b, d, f), v)])))"
      by (rule sbdf_to_path_on_root_bus)
    from chain_numbered_last [OF ch] have "chain_numbered fs segment [((hexval b, d, f), v)]"
      by (simp only: l)
    with sg have "path_to_sbdf fs (path_text segment (relative_buses 0 [((hexval b, d, f), v)])
                                                     (slots [((hexval b, d, f), v)]))
                  = Inr (live_address segment (target [((hexval b, d, f), v)]))"
      by (rule path_to_sbdf_path_text)
    moreover have "target [((hexval b, d, f), v)] = target chain"
      by (simp add: target_def lst [unfolded target_def])
    ultimately show ?thesis using enc addr unfolding segment_def by simp
  next
    case False
    with rl have lk: "linked fs segment rb chain" by simp
    from rx segment_def sg ch lst False lk
    have enc: "sbdf_to_path fs device_id
               = Inr (Some (path_text segment (relative_buses 0 chain) (slots chain)))"
      by (rule sbdf_to_path_linked)
    from sg ch have "path_to_sbdf fs (path_text segment (relative_buses 0 chain) (slots chain))
                     = Inr (live_address segment (target chain))"
      by (rule path_to_sbdf_path_text)
    with enc addr show ?thesis unfolding segment_def by simp
  qed
qed


theorem topology_codec_roundtrip_witness:
  "sbdf_regex ''03_00.0'' = Some (None, ''03'', ''00'', ''0'')
   \<and> reachable tree_fs (segment_or_default None) ''00''
         [((0, ''03'', ''0''), 2), ((2, ''01'', ''0''), 3), ((3, ''00'', ''0''), -1)]
   \<and> sbdf_to_path tree_fs ''03_00.0'' = Inr (Some ''00_03.0-00_01.0-00_00.0'')
   \<and> path_to_sbdf tree_fs ''00_03.0-00_01.0-00_00.0'' = Inr ''0000:03:00.0''
   \<and> sbdf_regex ''pci_0000_00_1f_2'' = Some (Some ''0000'', ''00'', ''1f'', ''2'')
   \<and> reachable tree_fs (segment_or_default (Some ''0000'')) ''00'' [((0, ''1f'', ''2''), -1)]
   \<and> sbdf_to_path tree_fs ''pci_0000_00_1f_2'' = Inr (Some ''00_1f.2'')
   \<and> path_to_sbdf tree_fs ''00_1f.2'' = Inr ''0000:00:1f.2''
   \<and> sbdf_regex ''0001:43:00.1'' = Some (Some ''0001'', ''43'', ''00'', ''1'')
   \<and> reachable offset_fs (segment_or_default (Some ''0001'')) ''40''
         [((64, ''1c'', ''0''), 65), ((67, ''00'', ''1''), -1)]
   \<and> sbdf_to_path offset_fs ''0001:43:00.1'' = Inr (Some ''0001_40_1c.0-02_00.1'')
   \<and> path_to_sbdf offset_fs ''0001_40_1c.0-02_00.1'' = Inr ''0001:43:00.1''"
proof -
  let ?c1 = "[((0, ''03'', ''0''), 2), ((2, ''01'', ''0''), 3), ((3::nat, ''00'', ''0''), -1::int)]"
  have a: "sbdf_regex ''03_00.0'' = Some (None, ''03'', ''00'', ''0'')" by code_simp
  have b: "reachable tree_fs (segment_or_default None) ''00'' ?c1" by code_simp
  have c: "target ?c1 = (hexval ''03'', ''00'', ''0'')" by code_simp
  have e: "sbdf_to_path tree_fs ''03_00.0'' = Inr (Some ''00_03.0-00_01.0-00_00.0'')"
    by code_simp
  from topology_codec_roundtrip [OF a b c] e
  have r: "path_to_sbdf tree_fs ''00_03.0-00_01.0-00_00.0'' = Inr ''0000:03:00.0''"
    by (simp add: segment_or_default_def)
  let ?c2 = "[((0::nat, ''1f'', ''2''), -1::int)]"
  have a': "sbdf_regex ''pci_0000_00_1f_2'' = Some (Some ''0000'', ''00'', ''1f'', ''2'')"
    by code_simp
  have b': "reachable tree_fs (segment_or_default (Some ''0000'')) ''00'' ?c2" by code_simp
  have c': "target ?c2 = (hexval ''00'', ''1f'', ''2'')" by code_simp
  have e': "sbdf_to_path tree_fs ''pci_0000_00_1f_2'' = Inr (Some ''00_1f.2'')" by code_simp
  from topology_codec_roundtrip [OF a' b' c'] e'
  have r': "path_to_sbdf tree_fs ''00_1f.2'' = Inr ''0000:00:1f.2''"
    by (simp add: segment_or_default_def)
  let ?c3 = "[((64, ''1c'', ''0''), 65), ((67::nat, ''00'', ''1''), -1::int)]"
  have a'': "sbdf_regex ''0001:43:00.1'' = Some (Some ''0001'', ''43'', ''00'', ''1'')"
    by code_simp
  have b'': "reachable offset_fs (segment_or_default (Some ''0001'')) ''40'' ?c3" by code_simp
  have c'': "target ?c3 = (hexval ''43'', ''00'', ''1'')" by code_simp
  have e'': "sbdf_to_path offset_fs ''0001:43:00.1'' = Inr (Some ''0001_40_1c.0-02_00.1'')"
    by code_simp
  from topology_codec_roundtrip [OF a'' b'' c''] e''
  have r'': "path_to_sbdf offset_fs ''0001_40_1c.0-02_00.1'' = Inr ''0001:43:00.1''"
    by (simp add: segment_or_default_def)
  show ?thesis using a b e r a' b' e' r' a'' b'' e'' r'' by simp
qed


end
